theory Spec2Isabelle
  imports Complex_Main
begin

section \<open>Pollutant dispersion along the Mantaro river\<close>

text \<open>
  The scripts compute with Python and numpy floats. They are modelled here as real
  numbers: overflow, underflow and NaN are outside this development, and rounding is
  modelled only where a statement depends on it (the value at the source in double
  precision). Python integers are \<open>int\<close> or \<open>nat\<close>, dictionaries are
  association lists in insertion order.
\<close>

subsection \<open>funcion.py: the one-dimensional profile\<close>

text \<open>An entry of the dictionary \<open>puntos\<close>: the discharge point and its load.\<close>

record punto =
  x_i :: real
  B :: real

definition puntos :: "(string \<times> punto) list" where
  "puntos =
     [(''La Oroya'', \<lparr>x_i = 0, B = 15 / 10\<rparr>),
      (''El Tambo'', \<lparr>x_i = 50, B = 150\<rparr>),
      (''Chilca'', \<lparr>x_i = 55, B = 50\<rparr>),
      (''Huancayo'', \<lparr>x_i = 58, B = 120\<rparr>)]"

text \<open>The Heaviside step \<open>np.where(x >= 0, 1, 0)\<close>.\<close>

definition H :: "real \<Rightarrow> real" where
  "H x = (if x \<ge> 0 then 1 else 0)"

text \<open>
  The curve of one discharge point at the sample \<open>x\<close>. The script fixes the decay
  coefficient to \<open>0.1\<close>; it is a parameter here.
\<close>

definition C_i :: "real \<Rightarrow> punto \<Rightarrow> real \<Rightarrow> real" where
  "C_i k p x = B p * k * exp (- k * (x - x_i p)) * H (x - x_i p)"

text \<open>The loop \<open>C_total += C_i\<close> over the items of the dictionary, from zero.\<close>

fun C_total_loop :: "real \<Rightarrow> (string \<times> punto) list \<Rightarrow> real \<Rightarrow> real \<Rightarrow> real" where
  "C_total_loop k [] x acc = acc"
| "C_total_loop k ((nombre, datos) # rest) x acc = C_total_loop k rest x (acc + C_i k datos x)"

definition C_total :: "real \<Rightarrow> (string \<times> punto) list \<Rightarrow> real \<Rightarrow> real" where
  "C_total k ps x = C_total_loop k ps x 0"

subsection \<open>The model objects of prototipo1.py and prototipo\_final.py\<close>

text \<open>
  A value of \<open>cities_data\<close>. Only the keys read by the computations are kept; the
  animation's display keys (elevation and plot position) are read by the drawing code alone.
\<close>

record city =
  distance :: real
  waste :: real
  color :: string

text \<open>The attributes both classes share; \<open>pollution_function\<close> is the same method in both.\<close>

record river =
  cities_data :: "(string \<times> city) list"
  k :: real
  river_length :: real
  resolution :: nat

definition pollution_function :: "'a river_scheme \<Rightarrow> real \<Rightarrow> real \<Rightarrow> real \<Rightarrow> real" where
  "pollution_function self x xi Bi =
     (if x < xi then 0 else Bi * k self * exp (- k self * (x - xi)))"

subsection \<open>prototipo1.py: MantaroRiverModel\<close>

text \<open>
  \<open>lateral_samples\<close> is the literal \<open>50\<close> of \<open>np.linspace(-2, 2, 50)\<close> in
  \<open>create_river_mesh\<close>, kept as an attribute so that the grid can be stated for any count.
\<close>

record river_model = river +
  river_width_scale :: real
  lateral_samples :: nat

text \<open>
  The constructor takes no argument and assigns literals. (The accented letter in the
  third city name is written as its two UTF-8 bytes.)
\<close>

definition MantaroRiverModel_init :: river_model where
  "MantaroRiverModel_init =
     \<lparr>cities_data =
        [(''Yauli (La Oroya)'', \<lparr>distance = 0, waste = 271 / 10, color = ''#FF4444''\<rparr>),
         (''Jauja'', \<lparr>distance = 53, waste = 105 / 10, color = ''#FF8800''\<rparr>),
         (''Concepci'' @ [CHR 0xC3, CHR 0xB3] @ ''n'', \<lparr>distance = 81, waste = 388 / 10, color = ''#FFBB00''\<rparr>),
         (''Huancayo'', \<lparr>distance = 103, waste = 3825 / 10, color = ''#FF0000''\<rparr>),
         (''Chupaca'', \<lparr>distance = 114, waste = 189 / 10, color = ''#AA4444''\<rparr>)],
      k = 2 / 10,
      river_length = 114,
      resolution = 100,
      river_width_scale = 2,
      lateral_samples = 50\<rparr>"

text \<open>
  \<open>np.linspace(start, stop, num)\<close>: \<open>num\<close> evenly spaced samples, the last one being
  \<open>stop\<close>; a single sample is \<open>start\<close>.
\<close>

definition linspace :: "real \<Rightarrow> real \<Rightarrow> nat \<Rightarrow> real list" where
  "linspace start stop num =
     (if num = 1 then [start]
      else map (\<lambda>i. start + real i * ((stop - start) / real (num - 1))) [0..<num])"

definition x_river :: "'a river_scheme \<Rightarrow> real list" where
  "x_river self = linspace 0 (river_length self) (resolution self)"

text \<open>\<open>create_river_mesh\<close>: the attributes it assigns, as functions of the object.\<close>

definition y_center :: "river_model \<Rightarrow> real list" where
  "y_center self = map (\<lambda>x. (5 / 10) * sin ((5 / 100) * x * 2 * pi)) (x_river self)"

definition river_width :: "river_model \<Rightarrow> real list" where
  "river_width self =
     map (\<lambda>x. (30 + 20 * sin ((3 / 100) * x * 2 * pi)) * river_width_scale self) (x_river self)"

definition y_river :: "river_model \<Rightarrow> real list" where
  "y_river self = linspace (- 2) 2 (lateral_samples self)"

text \<open>\<open>np.meshgrid(x_river, y_river)\<close>: one row for each lateral sample.\<close>

definition X :: "river_model \<Rightarrow> real list list" where
  "X self = map (\<lambda>y. x_river self) (y_river self)"

definition Y :: "river_model \<Rightarrow> real list list" where
  "Y self = map (\<lambda>y. map (\<lambda>x. y) (x_river self)) (y_river self)"

definition width_factor :: "river_model \<Rightarrow> nat \<Rightarrow> real" where
  "width_factor self i = river_width self ! i / (2 * river_width_scale self)"

text \<open>The loop over the columns \<open>i\<close> assigns every cell of \<open>Y_adjusted\<close>.\<close>

definition Y_adjusted :: "river_model \<Rightarrow> real list list" where
  "Y_adjusted self =
     map (\<lambda>j. map (\<lambda>i. Y self ! j ! i * width_factor self i + y_center self ! i)
                 [0..<length (x_river self)])
         [0..<length (y_river self)]"

text \<open>\<open>np.zeros_like\<close>.\<close>

definition zeros_like :: "real list list \<Rightarrow> real list list" where
  "zeros_like A = map (map (\<lambda>a. 0)) A"

text \<open>The lateral Gaussian \<open>np.exp(-(y ** 2) / 0.5)\<close> of \<open>calculate_pollution_field\<close>.\<close>

definition lateral_factor :: "real \<Rightarrow> real" where
  "lateral_factor y = exp (- (y ^ 2) / (5 / 10))"

text \<open>
  The two inner loops for one city: every cell \<open>[j, i]\<close> grows by the concentration at
  \<open>x_river[i]\<close> times the lateral factor at \<open>Y_adjusted[j, i]\<close>.
\<close>

definition add_city :: "river_model \<Rightarrow> city \<Rightarrow> real list list \<Rightarrow> real list list" where
  "add_city self data field =
     map (\<lambda>j. map (\<lambda>i. field ! j ! i
                      + pollution_function self (x_river self ! i) (distance data) (waste data)
                        * lateral_factor (Y_adjusted self ! j ! i))
                 [0..<resolution self])
         [0..<length (y_river self)]"

fun pollution_loop ::
  "river_model \<Rightarrow> string list \<Rightarrow> (string \<times> city) list \<Rightarrow> real list list \<Rightarrow> real list list"
where
  "pollution_loop self active [] field = field"
| "pollution_loop self active ((city, data) # rest) field =
     pollution_loop self active rest
       (if city \<in> set active then add_city self data field else field)"

text \<open>The default \<open>active_cities = list(self.cities_data.keys())\<close>.\<close>

definition active_or_all :: "river_model \<Rightarrow> string list option \<Rightarrow> string list" where
  "active_or_all self active_cities =
     (case active_cities of None \<Rightarrow> map fst (cities_data self) | Some a \<Rightarrow> a)"

definition calculate_pollution_field :: "river_model \<Rightarrow> string list option \<Rightarrow> real list list" where
  "calculate_pollution_field self active_cities =
     pollution_loop self (active_or_all self active_cities) (cities_data self)
       (zeros_like (X self))"

text \<open>The \<open>shape\<close> of a two-dimensional array: rows, then columns.\<close>

definition shape :: "'a list list \<Rightarrow> nat \<times> nat" where
  "shape A = (length A, case A of [] \<Rightarrow> 0 | r # _ \<Rightarrow> length r)"

subsection \<open>prototipo\_final.py: MantaroRiverAnimation\<close>

text \<open>What the Python of this script can raise.\<close>

datatype py_error = ZeroDivisionError | IndexError

text \<open>
  A particle dictionary; its keys carry the prefix \<open>p_\<close> here. \<open>p_age\<close> and
  \<open>p_id\<close> are Python integers.
\<close>

record particle =
  p_id :: nat
  p_x :: real
  p_y :: real
  p_z :: real
  p_age :: int
  p_source_city :: string
  p_color :: string
  p_size :: real
  p_Bi :: real
  p_xi :: real
  p_opacity :: real

record animation = river +
  animation_speed :: real
  n_frames :: nat
  waste_particles :: "particle list"
  particle_id :: nat

definition MantaroRiverAnimation_init :: animation where
  "MantaroRiverAnimation_init =
     \<lparr>cities_data =
        [(''Yauli (La Oroya)'', \<lparr>distance = 0, waste = 271 / 10, color = ''#FF4444''\<rparr>),
         (''Jauja'', \<lparr>distance = 53, waste = 105 / 10, color = ''#FF8800''\<rparr>),
         (''Concepci'' @ [CHR 0xC3, CHR 0xB3] @ ''n'',
            \<lparr>distance = 81, waste = 388 / 10, color = ''#FFBB00''\<rparr>),
         (''Huancayo'', \<lparr>distance = 103, waste = 3825 / 10, color = ''#FF0000''\<rparr>),
         (''Chupaca'', \<lparr>distance = 114, waste = 189 / 10, color = ''#AA4444''\<rparr>)],
      k = 2 / 10,
      river_length = 144,
      resolution = 200,
      animation_speed = 2,
      n_frames = 60,
      waste_particles = [],
      particle_id = 0\<rparr>"

text \<open>\<open>create_river_path\<close>: the centerline \<open>self.y_river\<close> and the bed \<open>self.z_river\<close>.\<close>

definition path_y_river :: "animation \<Rightarrow> real list" where
  "path_y_river self =
     map (\<lambda>x. 8 * sin ((2 / 100) * x * 2 * pi)
              + 3 * sin ((5 / 100) * x * 2 * pi + 15 / 10)
              + (15 / 10) * sin ((1 / 10) * x * 2 * pi + 3))
         (x_river self)"

definition path_z_river :: "animation \<Rightarrow> real list" where
  "path_z_river self = map (\<lambda>x. 3700 - x * (52 / 10)) (x_river self)"

text \<open>Python's \<open>int()\<close> of a float truncates towards zero.\<close>

definition py_int :: "real \<Rightarrow> int" where
  "py_int v = (if 0 \<le> v then \<lfloor>v\<rfloor> else \<lceil>v\<rceil>)"

text \<open>Python's \<open>round()\<close> of a float rounds a tie to the even neighbour.\<close>

definition py_round :: "real \<Rightarrow> int" where
  "py_round v =
     (let f = \<lfloor>v\<rfloor>; d = v - of_int f
      in if d < 1 / 2 then f else if 1 / 2 < d then f + 1 else if even f then f else f + 1)"

text \<open>Indexing with a Python integer: a negative index counts from the end.\<close>

definition py_index :: "'a list \<Rightarrow> int \<Rightarrow> py_error + 'a" where
  "py_index xs i =
     (let n = int (length xs)
      in if 0 \<le> i \<and> i < n then Inr (xs ! nat i)
         else if - n \<le> i \<and> i < 0 then Inr (xs ! nat (n + i))
         else Inl IndexError)"

text \<open>\<open>int(v * self.resolution / self.river_length)\<close>; the division is a float division.\<close>

definition river_index :: "animation \<Rightarrow> real \<Rightarrow> py_error + int" where
  "river_index self v =
     (if river_length self = 0 then Inl ZeroDivisionError
      else Inr (py_int (v * real (resolution self) / river_length self)))"

text \<open>
  The body of the loop \<open>for i in range(n_particles)\<close>, the same in
  \<open>add_waste_particles\<close> and in \<open>create_frame\<close> up to the size and opacity given
  to the new particle.
\<close>

definition emit_particle ::
  "animation \<Rightarrow> string \<Rightarrow> city \<Rightarrow> real \<Rightarrow> real \<Rightarrow> nat \<Rightarrow> py_error + animation"
where
  "emit_particle self city data particle_size particle_opacity i =
     (let delta_x = real i * (5 / 10);
          px0 = distance data - delta_x;
          px = (if px0 < 0 then distance data else px0)
      in case river_index self px of
           Inl e \<Rightarrow> Inl e
         | Inr idx \<Rightarrow>
             if idx < int (length (path_y_river self)) then
               (case py_index (path_y_river self) idx of
                  Inl e \<Rightarrow> Inl e
                | Inr yv \<Rightarrow>
                    (case py_index (path_z_river self) idx of
                       Inl e \<Rightarrow> Inl e
                     | Inr zv \<Rightarrow>
                         Inr (self\<lparr>waste_particles := waste_particles self @
                                 [\<lparr>p_id = particle_id self, p_x = px, p_y = yv, p_z = zv + 1,
                                   p_age = 0, p_source_city = city, p_color = color data,
                                   p_size = particle_size, p_Bi = waste data,
                                   p_xi = distance data, p_opacity = particle_opacity\<rparr>],
                               particle_id := particle_id self + 1\<rparr>)))
             else Inr self)"

fun emit_loop ::
  "animation \<Rightarrow> string \<Rightarrow> city \<Rightarrow> real \<Rightarrow> real \<Rightarrow> nat list \<Rightarrow> py_error + animation"
where
  "emit_loop self city data particle_size particle_opacity [] = Inr self"
| "emit_loop self city data particle_size particle_opacity (i # rest) =
     (case emit_particle self city data particle_size particle_opacity i of
        Inl e \<Rightarrow> Inl e
      | Inr self' \<Rightarrow> emit_loop self' city data particle_size particle_opacity rest)"

definition n_particles :: "string \<Rightarrow> city \<Rightarrow> int" where
  "n_particles city data =
     (if city = ''Huancayo'' then min 10 (max 1 (py_round (waste data / 40)))
      else max 1 (py_round (waste data / 3)))"

text \<open>
  The emission for one city, with the particle size for Huancayo and for the others
  (0.5 and 40 in \<open>add_waste_particles\<close>, 18 and 80 in \<open>create_frame\<close>).
\<close>

definition emit_city ::
  "animation \<Rightarrow> real \<Rightarrow> real \<Rightarrow> string \<Rightarrow> city \<Rightarrow> py_error + animation"
where
  "emit_city self size_huancayo size_other city data =
     emit_loop self city data
       (if city = ''Huancayo'' then size_huancayo else size_other) 1
       [0..<nat (n_particles city data)]"

fun add_waste_loop ::
  "animation \<Rightarrow> real \<Rightarrow> (string \<times> city) list \<Rightarrow> py_error + animation"
where
  "add_waste_loop self current_x [] = Inr self"
| "add_waste_loop self current_x ((city, data) # rest) =
     (if \<bar>current_x - distance data\<bar> < 2 then
        (case emit_city self (5 / 10) 40 city data of
           Inl e \<Rightarrow> Inl e
         | Inr self' \<Rightarrow> add_waste_loop self' current_x rest)
      else add_waste_loop self current_x rest)"

definition add_waste_particles :: "animation \<Rightarrow> real \<Rightarrow> int \<Rightarrow> py_error + animation" where
  "add_waste_particles self current_x frame = add_waste_loop self current_x (cities_data self)"

text \<open>The loop of \<open>create_frame\<close> that emits at every city each tenth frame.\<close>

fun loop_mode :: "animation \<Rightarrow> (string \<times> city) list \<Rightarrow> py_error + animation" where
  "loop_mode self [] = Inr self"
| "loop_mode self ((city, data) # rest) =
     (case emit_city self 18 80 city data of
        Inl e \<Rightarrow> Inl e
      | Inr self' \<Rightarrow> loop_mode self' rest)"

text \<open>
  \<open>update_particles\<close>, the body of its loop in three parts: the move downstream with
  the lateral drift towards the centerline (\<open>noise\<close> is the draw of
  \<open>np.random.normal(0, 0.05)\<close>), the dispersion value, and the size and opacity.
\<close>

definition move_particle :: "animation \<Rightarrow> real \<Rightarrow> particle \<Rightarrow> py_error + particle" where
  "move_particle self noise p =
     (let p1 = p\<lparr>p_x := p_x p + animation_speed self * (8 / 10), p_age := p_age p + 1\<rparr>
      in if p_x p1 < river_length self then
           (case river_index self (p_x p1) of
              Inl e \<Rightarrow> Inl e
            | Inr idx \<Rightarrow>
                if idx < int (length (path_y_river self)) then
                  (case py_index (path_y_river self) idx of
                     Inl e \<Rightarrow> Inl e
                   | Inr target_y \<Rightarrow>
                       (case py_index (path_z_river self) idx of
                          Inl e \<Rightarrow> Inl e
                        | Inr zv \<Rightarrow>
                            Inr (p1\<lparr>p_y := p_y p1 + (target_y - p_y p1) * (1 / 10) + noise,
                                    p_z := zv + 1\<rparr>)))
                else Inr p1)
         else Inr p1)"

definition dispersion :: "animation \<Rightarrow> particle \<Rightarrow> real" where
  "dispersion self p = p_Bi p * k self * exp (- k self * (p_x p - p_xi p))"

definition restyle :: "particle \<Rightarrow> real \<Rightarrow> particle" where
  "restyle p Cx =
     p\<lparr>p_size := (if p_source_city p = ''Huancayo'' then max 1 (Cx * (5 / 10))
                   else max 20 (Cx * 4)),
       p_opacity := (if p_source_city p \<noteq> ''Huancayo'' then min 1 (max (7 / 10) (Cx / p_Bi p))
                      else min 1 (max (1 / 10) (Cx / p_Bi p)))\<rparr>"

text \<open>The indices appended to \<open>particles_to_remove\<close> for the particle at index \<open>i\<close>.\<close>

definition removal_marks :: "animation \<Rightarrow> particle \<Rightarrow> real \<Rightarrow> nat \<Rightarrow> nat list" where
  "removal_marks self p Cx i =
     (if Cx \<le> 1 / 10 then [i] else [])
     @ (if river_length self < p_x p \<or> 100 < p_age p then [i] else [])"

fun update_loop ::
  "animation \<Rightarrow> (nat \<Rightarrow> real) \<Rightarrow> nat \<Rightarrow> particle list \<Rightarrow> py_error + (particle list \<times> nat list)"
where
  "update_loop self rnd i [] = Inr ([], [])"
| "update_loop self rnd i (p # rest) =
     (case move_particle self (rnd i) p of
        Inl e \<Rightarrow> Inl e
      | Inr p1 \<Rightarrow>
          (let Cx = dispersion self p1; p2 = restyle p1 Cx
           in case update_loop self rnd (Suc i) rest of
                Inl e \<Rightarrow> Inl e
              | Inr (ps, marks) \<Rightarrow> Inr (p2 # ps, removal_marks self p2 Cx i @ marks)))"

text \<open>\<open>for i in ...: self.waste_particles.pop(i)\<close>.\<close>

fun pop_all :: "nat list \<Rightarrow> 'a list \<Rightarrow> py_error + 'a list" where
  "pop_all [] xs = Inr xs"
| "pop_all (i # rest) xs =
     (if i < length xs then pop_all rest (take i xs @ drop (Suc i) xs) else Inl IndexError)"

text \<open>
  \<open>rnd i\<close> is the random draw for the particle at index \<open>i\<close>. The indices are popped
  in the order \<open>sorted(set(particles_to_remove), reverse=True)\<close>.
\<close>

definition update_particles :: "animation \<Rightarrow> (nat \<Rightarrow> real) \<Rightarrow> py_error + animation" where
  "update_particles self rnd =
     (case update_loop self rnd 0 (waste_particles self) of
        Inl e \<Rightarrow> Inl e
      | Inr (ps, marks) \<Rightarrow>
          (case pop_all (rev (sort (remdups marks))) ps of
             Inl e \<Rightarrow> Inl e
           | Inr ps' \<Rightarrow> Inr (self\<lparr>waste_particles := ps'\<rparr>)))"

text \<open>\<open>self.waste_particles[-200:]\<close> when there are more than 200 particles.\<close>

definition limit_particles :: "animation \<Rightarrow> animation" where
  "limit_particles self =
     (if 200 < length (waste_particles self) then
        self\<lparr>waste_particles := drop (length (waste_particles self) - 200) (waste_particles self)\<rparr>
      else self)"

text \<open>
  \<open>create_frame\<close>, its effect on the object: the traces it then builds for the plot
  read the object and are not modelled.
\<close>

definition create_frame :: "animation \<Rightarrow> (nat \<Rightarrow> real) \<Rightarrow> int \<Rightarrow> py_error + animation" where
  "create_frame self rnd frame_num =
     (let current_x = real_of_int frame_num * animation_speed self
      in case add_waste_particles self current_x frame_num of
           Inl e \<Rightarrow> Inl e
         | Inr self1 \<Rightarrow>
             (case (if frame_num mod 10 = 0 then loop_mode self1 (cities_data self1)
                    else Inr self1) of
                Inl e \<Rightarrow> Inl e
              | Inr self2 \<Rightarrow> update_particles (limit_particles self2) rnd))"

text \<open>
  The first part of \<open>create_frame\<close>: the two emissions of new particles.
\<close>

definition emission :: "animation \<Rightarrow> int \<Rightarrow> py_error + animation" where
  "emission self frame_num =
     (case add_waste_particles self (real_of_int frame_num * animation_speed self) frame_num of
        Inl e \<Rightarrow> Inl e
      | Inr self1 \<Rightarrow>
          if frame_num mod 10 = 0 then loop_mode self1 (cities_data self1) else Inr self1)"

subsection \<open>prototipo1.py in double precision\<close>

text \<open>
  Rounding of a real to the nearest integer, a tie going to the even neighbour.
\<close>

definition rne :: "real \<Rightarrow> int" where
  "rne v =
     (let f = \<lfloor>v\<rfloor>; d = v - of_int f
      in if d < 1 / 2 then f else if 1 / 2 < d then f + 1 else if even f then f else f + 1)"

text \<open>
  The exponent of the power of two at or below the magnitude of a real.
\<close>

definition binade :: "real \<Rightarrow> int" where
  "binade v = \<lfloor>log 2 \<bar>v\<bar>\<rfloor>"

text \<open>
  The double nearest to a real, a tie going to the even significand (53 significant
  bits). This is the rounding of IEEE 754 binary64 for magnitudes in its normal range,
  from 2 ** -1022 to below 2 ** 1024, where every number used below lies.
\<close>

definition binary64 :: "real \<Rightarrow> real" where
  "binary64 v =
     (if v = 0 then 0
      else real_of_int (rne (v / 2 powi (binade v - 52))) * 2 powi (binade v - 52))"

text \<open>
  \<open>pollution_function\<close> as the interpreter evaluates it: the decimal values are
  held as doubles and every operation of \<open>Bi * self.k * np.exp(-self.k * (x - xi))\<close>,
  taken from left to right, rounds its result. \<open>np.exp\<close> is taken as the rounded
  exponential; it is used below at 0 only, where it is exactly 1.
\<close>

definition pollution_function_binary64 ::
  "'a river_scheme \<Rightarrow> real \<Rightarrow> real \<Rightarrow> real \<Rightarrow> real"
where
  "pollution_function_binary64 self x xi Bi =
     (let kd = binary64 (k self); Bd = binary64 Bi; xd = binary64 x; xid = binary64 xi
      in if xd < xid then 0
         else binary64 (binary64 (Bd * kd)
                        * binary64 (exp (binary64 (- kd * binary64 (xd - xid))))))"

subsection \<open>prototipo1.py with its arrays in a store\<close>

text \<open>
  A numpy array of one or of two dimensions.
\<close>

datatype ndarray = Vec "real list" | Mat "real list list"

text \<open>
  What an access to the store can raise: an index out of bounds (Python's IndexError),
  or an address that holds no array of the expected kind, which no attribute of a
  constructed object is.
\<close>

datatype store_error = OutOfBounds | NoSuchArray

text \<open>
  The object with the arrays read by \<open>calculate_pollution_field\<close> held by
  reference: the attributes \<open>x_river\<close>, \<open>y_river\<close>, \<open>X\<close> and
  \<open>Y_adjusted\<close> are addresses in a store of arrays, which is a list indexed by
  address. No statement of \<open>pollution_function\<close> or
  \<open>calculate_pollution_field\<close> assigns an attribute, so the object itself is a
  parameter of both.
\<close>

record river_object = river_model +
  x_river_at :: nat
  y_river_at :: nat
  X_at :: nat
  Y_adjusted_at :: nat

text \<open>
  \<open>len(a)\<close>.
\<close>

definition vec_len :: "ndarray list \<Rightarrow> nat \<Rightarrow> store_error + nat" where
  "vec_len st a =
     (if a < length st then
        (case st ! a of Vec xs \<Rightarrow> Inr (length xs) | Mat m \<Rightarrow> Inr (length m))
      else Inl NoSuchArray)"

text \<open>
  \<open>a[i]\<close> on an array of one dimension.
\<close>

definition vec_read :: "ndarray list \<Rightarrow> nat \<Rightarrow> nat \<Rightarrow> store_error + real" where
  "vec_read st a i =
     (if a < length st then
        (case st ! a of
           Vec xs \<Rightarrow> if i < length xs then Inr (xs ! i) else Inl OutOfBounds
         | Mat m \<Rightarrow> Inl NoSuchArray)
      else Inl NoSuchArray)"

text \<open>
  \<open>a[j, i]\<close>.
\<close>

definition mat_read :: "ndarray list \<Rightarrow> nat \<Rightarrow> nat \<Rightarrow> nat \<Rightarrow> store_error + real" where
  "mat_read st a j i =
     (if a < length st then
        (case st ! a of
           Mat m \<Rightarrow> if j < length m \<and> i < length (m ! j) then Inr (m ! j ! i)
                     else Inl OutOfBounds
         | Vec xs \<Rightarrow> Inl NoSuchArray)
      else Inl NoSuchArray)"

text \<open>
  \<open>a[j, i] += v\<close>, in place.
\<close>

definition mat_add ::
  "ndarray list \<Rightarrow> nat \<Rightarrow> nat \<Rightarrow> nat \<Rightarrow> real \<Rightarrow> store_error + ndarray list"
where
  "mat_add st a j i v =
     (if a < length st then
        (case st ! a of
           Mat m \<Rightarrow>
             if j < length m \<and> i < length (m ! j) then
               Inr (st[a := Mat (m[j := (m ! j)[i := m ! j ! i + v]])])
             else Inl OutOfBounds
         | Vec xs \<Rightarrow> Inl NoSuchArray)
      else Inl NoSuchArray)"

text \<open>
  \<open>np.zeros_like(a)\<close>: a new array, at the next free address.
\<close>

definition alloc_zeros_like ::
  "ndarray list \<Rightarrow> nat \<Rightarrow> store_error + (nat \<times> ndarray list)"
where
  "alloc_zeros_like st a =
     (if a < length st then
        (case st ! a of
           Mat m \<Rightarrow> Inr (length st, st @ [Mat (zeros_like m)])
         | Vec xs \<Rightarrow> Inr (length st, st @ [Vec (map (\<lambda>x. 0) xs)]))
      else Inl NoSuchArray)"

text \<open>
  The loop \<open>for j in range(len(self.y_river))\<close> of \<open>calculate_pollution_field\<close>.
\<close>

fun lateral_loop ::
  "river_object \<Rightarrow> nat \<Rightarrow> real \<Rightarrow> nat \<Rightarrow> nat list \<Rightarrow> ndarray list
     \<Rightarrow> store_error + ndarray list"
where
  "lateral_loop self field_at concentration i [] st = Inr st"
| "lateral_loop self field_at concentration i (j # rest) st =
     (case mat_read st (Y_adjusted_at self) j i of
        Inl e \<Rightarrow> Inl e
      | Inr y \<Rightarrow>
          (case mat_add st field_at j i (concentration * lateral_factor y) of
             Inl e \<Rightarrow> Inl e
           | Inr st' \<Rightarrow> lateral_loop self field_at concentration i rest st'))"

text \<open>
  The loop \<open>for i in range(self.resolution)\<close>.
\<close>

fun river_loop ::
  "river_object \<Rightarrow> nat \<Rightarrow> city \<Rightarrow> nat list \<Rightarrow> ndarray list \<Rightarrow> store_error + ndarray list"
where
  "river_loop self field_at data [] st = Inr st"
| "river_loop self field_at data (i # rest) st =
     (case vec_read st (x_river_at self) i of
        Inl e \<Rightarrow> Inl e
      | Inr x \<Rightarrow>
          (case vec_len st (y_river_at self) of
             Inl e \<Rightarrow> Inl e
           | Inr n \<Rightarrow>
               (case lateral_loop self field_at
                       (pollution_function self x (distance data) (waste data)) i [0..<n] st of
                  Inl e \<Rightarrow> Inl e
                | Inr st' \<Rightarrow> river_loop self field_at data rest st')))"

text \<open>
  The loop over the items of \<open>cities_data\<close>.
\<close>

fun city_loop ::
  "river_object \<Rightarrow> string list \<Rightarrow> nat \<Rightarrow> (string \<times> city) list \<Rightarrow> ndarray list
     \<Rightarrow> store_error + ndarray list"
where
  "city_loop self active field_at [] st = Inr st"
| "city_loop self active field_at ((city, data) # rest) st =
     (if city \<in> set active then
        (case river_loop self field_at data [0..<resolution self] st of
           Inl e \<Rightarrow> Inl e
         | Inr st' \<Rightarrow> city_loop self active field_at rest st')
      else city_loop self active field_at rest st)"

text \<open>
  \<open>calculate_pollution_field\<close> on the store: it returns the address of the field
  and the store after the call.
\<close>

definition calculate_pollution_field_st ::
  "river_object \<Rightarrow> string list option \<Rightarrow> ndarray list \<Rightarrow> store_error + (nat \<times> ndarray list)"
where
  "calculate_pollution_field_st self active_cities st =
     (let active = (case active_cities of None \<Rightarrow> map fst (cities_data self) | Some a \<Rightarrow> a)
      in case alloc_zeros_like st (X_at self) of
           Inl e \<Rightarrow> Inl e
         | Inr (field_at, st0) \<Rightarrow>
             (case city_loop self active field_at (cities_data self) st0 of
                Inl e \<Rightarrow> Inl e
              | Inr st' \<Rightarrow> Inr (field_at, st')))"

text \<open>
  The object and the store after the constructor has built the mesh of the model with
  the given attributes. The arrays that the two methods do not read (\<open>Y\<close> and the
  elevations) are left out.
\<close>

definition MantaroRiverModel_object :: "river_model \<Rightarrow> river_object \<times> ndarray list" where
  "MantaroRiverModel_object m =
     (river_model.extend m \<lparr>x_river_at = 0, y_river_at = 1, X_at = 2, Y_adjusted_at = 3\<rparr>,
      [Vec (x_river m), Vec (y_river m), Mat (X m), Mat (Y_adjusted m)])"

subsection \<open>Predicates and values used in the statements\<close>

text \<open>
  The field has one row for each lateral sample and one column for each sample along
  the river.
\<close>

definition well_shaped :: "river_model \<Rightarrow> real list list \<Rightarrow> bool" where
  "well_shaped self field \<longleftrightarrow>
     length field = lateral_samples self \<and> list_all (\<lambda>row. length row = resolution self) field"

text \<open>The three conditions under which \<open>update_particles\<close> marks no index for a particle.\<close>

definition survives :: "animation \<Rightarrow> particle \<Rightarrow> bool" where
  "survives self p \<longleftrightarrow>
     p_x p \<le> river_length self \<and> p_age p \<le> 100 \<and> 1 / 10 < dispersion self p"

text \<open>What one pass of the loop of \<open>update_particles\<close> does to the keys the removal reads.\<close>

definition moved :: "animation \<Rightarrow> particle \<Rightarrow> particle \<Rightarrow> bool" where
  "moved self p q \<longleftrightarrow>
     p_x q = p_x p + animation_speed self * (8 / 10) \<and> p_age q = p_age p + 1
     \<and> p_Bi q = p_Bi p \<and> p_xi q = p_xi p \<and> p_id q = p_id p
     \<and> p_source_city q = p_source_city p"

text \<open>An animation holding two particles of Jauja that differ in age only.\<close>

definition two_particles :: animation where
  "two_particles =
     MantaroRiverAnimation_init
       \<lparr>waste_particles :=
          [\<lparr>p_id = 0, p_x = 514 / 10, p_y = 0, p_z = 3400, p_age = 0, p_source_city = ''Jauja'',
            p_color = ''#FF8800'', p_size = 40, p_Bi = 105 / 10, p_xi = 53, p_opacity = 1\<rparr>,
           \<lparr>p_id = 1, p_x = 514 / 10, p_y = 0, p_z = 3400, p_age = 100, p_source_city = ''Jauja'',
            p_color = ''#FF8800'', p_size = 40, p_Bi = 105 / 10, p_xi = 53, p_opacity = 1\<rparr>]\<rparr>"

text \<open>A state from which \<open>create_frame\<close> raises nothing: a river of positive length, a
  non-negative speed and particles at non-negative positions.\<close>

definition frame_ready :: "animation \<Rightarrow> bool" where
  "frame_ready self \<longleftrightarrow>
     0 < river_length self \<and> 0 \<le> animation_speed self
     \<and> list_all (\<lambda>p. 0 \<le> p_x p) (waste_particles self)"

text \<open>
  Two stores that hold the same arrays at the addresses of the object, and the same
  contents in their accumulating fields, which are none of these arrays.
\<close>

definition linked :: "river_object \<Rightarrow> nat \<Rightarrow> nat \<Rightarrow> ndarray list \<Rightarrow> ndarray list \<Rightarrow> bool" where
  "linked self f f' st g \<longleftrightarrow>
     f < length st \<and> f' < length g \<and> st ! f = g ! f'
     \<and> list_all (\<lambda>r. r < length st \<and> r < length g \<and> r \<noteq> f \<and> r \<noteq> f' \<and> st ! r = g ! r)
          [x_river_at self, y_river_at self, X_at self, Y_adjusted_at self]"

text \<open>
  The array attributes of the object are addresses of the store.
\<close>

definition refs_allocated :: "river_object \<Rightarrow> ndarray list \<Rightarrow> bool" where
  "refs_allocated self st \<longleftrightarrow>
     x_river_at self < length st \<and> y_river_at self < length st
     \<and> X_at self < length st \<and> Y_adjusted_at self < length st"

text \<open>
  The store holds, at the addresses of the object, the mesh of the model.
\<close>

definition holds_mesh :: "river_model \<Rightarrow> river_object \<Rightarrow> ndarray list \<Rightarrow> bool" where
  "holds_mesh m self st \<longleftrightarrow>
     refs_allocated self st
     \<and> st ! x_river_at self = Vec (x_river m) \<and> st ! y_river_at self = Vec (y_river m)
     \<and> st ! X_at self = Mat (X m) \<and> st ! Y_adjusted_at self = Mat (Y_adjusted m)
     \<and> cities_data self = cities_data m \<and> k self = k m \<and> resolution self = resolution m"

text \<open>
  The field after the lateral loop has run over the first \<open>n\<close> rows of column \<open>i\<close>.
\<close>

definition column_added :: "river_model \<Rightarrow> real \<Rightarrow> nat \<Rightarrow> nat \<Rightarrow> real list list \<Rightarrow> real list list" where
  "column_added m c i n M =
     map (\<lambda>j. map (\<lambda>i'. M ! j ! i'
                     + (if i' = i \<and> j < n then c * lateral_factor (Y_adjusted m ! j ! i) else 0))
                [0..<resolution m])
         [0..<lateral_samples m]"

text \<open>
  The field after the loop along the river has run over the first \<open>r\<close> columns.
\<close>

definition columns_added :: "river_model \<Rightarrow> city \<Rightarrow> nat \<Rightarrow> real list list \<Rightarrow> real list list" where
  "columns_added m d r M =
     map (\<lambda>j. map (\<lambda>i. M ! j ! i
                     + (if i < r
                        then pollution_function m (x_river m ! i) (distance d) (waste d)
                             * lateral_factor (Y_adjusted m ! j ! i)
                        else 0))
                [0..<resolution m])
         [0..<lateral_samples m]"

text \<open>
  The address of the field is in the store and is none of the arrays of the object.
\<close>

definition field_at_ok :: "river_object \<Rightarrow> nat \<Rightarrow> ndarray list \<Rightarrow> bool" where
  "field_at_ok self f st \<longleftrightarrow>
     f < length st \<and> f \<noteq> x_river_at self \<and> f \<noteq> y_river_at self \<and> f \<noteq> X_at self
     \<and> f \<noteq> Y_adjusted_at self"

text \<open>
  The second object has the particles of the first, in order, possibly followed by
  others, and the same river.
\<close>

definition extends :: "animation \<Rightarrow> animation \<Rightarrow> bool" where
  "extends s s' \<longleftrightarrow>
     take (length (waste_particles s)) (waste_particles s') = waste_particles s
     \<and> length (waste_particles s) \<le> length (waste_particles s')
     \<and> k s' = k s \<and> river_length s' = river_length s \<and> resolution s' = resolution s
     \<and> animation_speed s' = animation_speed s \<and> cities_data s' = cities_data s"

text \<open>
  An animation holding 201 particles of Jauja, numbered from 0.
\<close>

definition many_particles :: animation where
  "many_particles =
     MantaroRiverAnimation_init
       \<lparr>waste_particles :=
          map (\<lambda>i. \<lparr>p_id = i, p_x = 514 / 10, p_y = 0, p_z = 3400, p_age = 0,
                     p_source_city = ''Jauja'', p_color = ''#FF8800'', p_size = 40,
                     p_Bi = 105 / 10, p_xi = 53, p_opacity = 1\<rparr>)
              [0..<201]\<rparr>"

section \<open>Properties\<close>

subsection \<open>The concentration of one source\<close>

lemma H_cases: "H (x - a) = (if x < a then 0 else 1)"
  by (simp add: H_def)

text \<open>
  C1. Upstream of its source a source contributes exactly 0; from the source on it
  contributes rate * k * exp (-k * (x - location)). This holds for the method
  \<open>pollution_function\<close> and for the Heaviside form of funcion.py.
\<close>

theorem C1_no_upstream_transport:
  "pollution_function self x xi Bi
     = (if x < xi then 0 else Bi * k self * exp (- k self * (x - xi)))
   \<and> C_i kk p x = (if x < x_i p then 0 else B p * kk * exp (- kk * (x - x_i p)))"
  by (simp add: pollution_function_def C_i_def H_cases)

subsection \<open>The peak in double precision\<close>

lemma binade_eq:
  assumes "2 powi n \<le> \<bar>v\<bar>" and "\<bar>v\<bar> < 2 powi (n + 1)"
  shows "binade v = n"
proof -
  have "(0::real) < 2 powi n"
    by (simp add: zero_less_power_int)
  then have pos: "0 < \<bar>v\<bar>"
    using assms(1) by (rule less_le_trans)
  have "(2::real) powr real_of_int n = 2 powi n" "(2::real) powr real_of_int (n + 1) = 2 powi (n + 1)"
    by (simp_all only: powr_real_of_int' [of 2, simplified])
  then have "\<lfloor>log 2 \<bar>v\<bar>\<rfloor> = n"
    using assms floor_log_eq_powr_iff [of "\<bar>v\<bar>" 2 n] pos by simp
  then show ?thesis
    by (simp add: binade_def)
qed

lemma binary64_eq:
  assumes "2 powi n \<le> \<bar>v\<bar>" and "\<bar>v\<bar> < 2 powi (n + 1)"
  shows "binary64 v = real_of_int (rne (v / 2 powi (n - 52))) * 2 powi (n - 52)"
proof -
  have "(0::real) < 2 powi n"
    by (simp add: zero_less_power_int)
  then have "0 < \<bar>v\<bar>"
    using assms(1) by (rule less_le_trans)
  then have "v \<noteq> 0"
    by auto
  then show ?thesis
    by (simp add: binary64_def binade_eq [OF assms])
qed

lemma binary64_0: "binary64 0 = 0"
  by (simp add: binary64_def)

lemma binary64_1: "binary64 1 = 1"
  using binary64_eq [of 0 1] by (simp add: rne_def)

lemma binary64_27_1: "binary64 (271 / 10) = 7627971868858778 / 2 ^ 48"
  using binary64_eq [of 4 "271 / 10"] by (simp add: rne_def)

lemma binary64_0_2: "binary64 (2 / 10) = 7205759403792794 / 2 ^ 55"
  using binary64_eq [of "- 3" "2 / 10"] by (simp add: rne_def)

lemma binary64_5_42: "binary64 (542 / 100) = 6102377495087022 / 2 ^ 50"
  using binary64_eq [of 2 "542 / 100"] by (simp add: rne_def)

lemma binary64_product:
  "binary64 (7627971868858778 / 2 ^ 48 * (7205759403792794 / 2 ^ 55))
     = 6102377495087023 / 2 ^ 50"
  using binary64_eq [of 2 "7627971868858778 / 2 ^ 48 * (7205759403792794 / 2 ^ 55)"]
  by (simp add: rne_def)

lemma binary64_result: "binary64 (6102377495087023 / 2 ^ 50) = 6102377495087023 / 2 ^ 50"
  using binary64_eq [of 2 "6102377495087023 / 2 ^ 50"] by (simp add: rne_def)

lemma peak_binary64:
  "pollution_function_binary64 MantaroRiverModel_init 0 0 (271 / 10)
     = 6102377495087023 / 2 ^ 50"
proof -
  have "k MantaroRiverModel_init = 2 / 10"
    by (simp add: MantaroRiverModel_init_def)
  then show ?thesis
    by (simp only: pollution_function_binary64_def Let_def binary64_0 binary64_27_1
        binary64_0_2 diff_self mult_zero_right exp_zero binary64_1 mult_1_right
        binary64_product binary64_result less_irrefl if_False mult_zero_left)
qed

text \<open>
  C2, as the code has it. At the source location the concentration is the peak
  rate * k. For the source at 0 with rate 27.1 and k = 0.2 the value at 0 is the product
  27.1 * 0.2 as the code computes it in double precision: 6102377495087023 / 2 ** 50,
  printed 5.420000000000001, which is within 1e-15 of 5.42 and one unit in the last
  place above the double nearest to 5.42. At 53 the value is
  27.1 * 0.2 * exp (-0.2 * 53).
\<close>

theorem C2_peak_at_source:
  "pollution_function self xi xi Bi = Bi * k self
   \<and> pollution_function_binary64 MantaroRiverModel_init 0 0 (271 / 10)
       = 6102377495087023 / 2 ^ 50
   \<and> binary64 (542 / 100) = 6102377495087022 / 2 ^ 50
   \<and> \<bar>pollution_function_binary64 MantaroRiverModel_init 0 0 (271 / 10) - 542 / 100\<bar>
       < 1 / 10 ^ 15
   \<and> pollution_function MantaroRiverModel_init 53 0 (271 / 10)
       = (271 / 10) * (2 / 10) * exp (- (2 / 10) * 53)"
proof -
  have "pollution_function self xi xi Bi = Bi * k self"
    by (simp add: pollution_function_def)
  moreover have "\<bar>6102377495087023 / 2 ^ 50 - 542 / 100 :: real\<bar> < 1 / 10 ^ 15"
    by simp
  moreover have "pollution_function MantaroRiverModel_init 53 0 (271 / 10)
       = (271 / 10) * (2 / 10) * exp (- (2 / 10) * 53)"
    by (simp add: pollution_function_def MantaroRiverModel_init_def)
  ultimately show ?thesis
    by (simp only: peak_binary64 binary64_5_42)
qed

text \<open>
  In double precision the value at the source of the constructed model, for the rate
  27.1, is not the double written 5.42, and it is not the real number 5.42.
\<close>

theorem C2_peak_is_not_5_42:
  "pollution_function_binary64 MantaroRiverModel_init 0 0 (271 / 10) \<noteq> binary64 (542 / 100)
   \<and> pollution_function_binary64 MantaroRiverModel_init 0 0 (271 / 10) \<noteq> 542 / 100"
  by (simp only: peak_binary64 binary64_5_42) simp

subsection \<open>Decay downstream\<close>

text \<open>
  C4. Downstream of a source with a non-negative rate, and for k > 0, the concentration
  does not increase: for location \<le> x1 < x2 the value at x1 is at least the value at x2.
\<close>

theorem C4_monotonic_decay:
  assumes "0 < k self" and "0 \<le> Bi" and "xi \<le> x1" and "x1 < x2"
  shows "pollution_function self x2 xi Bi \<le> pollution_function self x1 xi Bi"
proof -
  have "- k self * (x2 - xi) \<le> - k self * (x1 - xi)"
    using assms by simp
  then have "exp (- k self * (x2 - xi)) \<le> exp (- k self * (x1 - xi))"
    by simp
  moreover have "0 \<le> Bi * k self"
    using assms by simp
  ultimately have "Bi * k self * exp (- k self * (x2 - xi))
      \<le> Bi * k self * exp (- k self * (x1 - xi))"
    by (rule mult_left_mono)
  then show ?thesis
    using assms by (simp add: pollution_function_def)
qed

theorem C4_monotonic_decay_witness:
  "pollution_function MantaroRiverModel_init 1 0 (271 / 10)
     \<le> pollution_function MantaroRiverModel_init 0 0 (271 / 10)"
  using C4_monotonic_decay [of MantaroRiverModel_init "271 / 10" 0 0 1]
  by (simp add: MantaroRiverModel_init_def)

subsection \<open>The mesh and the field\<close>

lemma length_linspace: "length (linspace a b n) = n"
  by (simp add: linspace_def)

lemma nth_linspace:
  "i < n \<Longrightarrow> linspace a b n ! i = a + real i * ((b - a) / real (n - 1))"
  by (auto simp: linspace_def)

lemma length_x_river: "length (x_river self) = resolution self"
  by (simp add: x_river_def length_linspace)

lemma length_y_river: "length (y_river self) = lateral_samples self"
  by (simp add: y_river_def length_linspace)


lemma add_city_nth:
  assumes "j < lateral_samples self" and "i < resolution self"
  shows "add_city self d field ! j ! i
           = field ! j ! i
             + pollution_function self (x_river self ! i) (distance d) (waste d)
               * lateral_factor (Y_adjusted self ! j ! i)"
  using assms by (simp add: add_city_def length_y_river)

text \<open>The contributions of the active cities, in dictionary order.\<close>

lemma pollution_loop_nth:
  assumes "j < lateral_samples self" and "i < resolution self"
  shows "pollution_loop self active cs field ! j ! i
           = field ! j ! i
             + (\<Sum>(c, d) \<leftarrow> filter (\<lambda>(c, d). c \<in> set active) cs.
                  pollution_function self (x_river self ! i) (distance d) (waste d)
                  * lateral_factor (Y_adjusted self ! j ! i))"
  using assms
proof (induction cs arbitrary: field)
  case Nil
  then show ?case by simp
next
  case (Cons cd cs)
  obtain c d where cd: "cd = (c, d)" by (cases cd)
  show ?case
    using Cons.IH [OF Cons.prems] Cons.prems
    by (simp add: cd add_city_nth)
qed

lemma zeros_like_X_nth:
  assumes "j < lateral_samples self" and "i < resolution self"
  shows "zeros_like (X self) ! j ! i = 0"
  using assms by (simp add: zeros_like_def X_def length_y_river length_x_river)

lemma well_shaped_zeros: "well_shaped self (zeros_like (X self))"
  by (simp add: well_shaped_def zeros_like_def X_def length_y_river length_x_river
      list_all_iff)

lemma well_shaped_add_city: "well_shaped self (add_city self d field)"
  by (simp add: well_shaped_def add_city_def length_y_river list_all_iff)

lemma well_shaped_loop:
  "well_shaped self field \<Longrightarrow> well_shaped self (pollution_loop self active cs field)"
  by (induction cs arbitrary: field) (auto simp: well_shaped_add_city)

lemma well_shaped_field: "well_shaped self (calculate_pollution_field self ac)"
  by (simp add: calculate_pollution_field_def well_shaped_loop well_shaped_zeros)

lemma field_nth:
  assumes "j < lateral_samples self" and "i < resolution self"
  shows "calculate_pollution_field self ac ! j ! i
           = (\<Sum>(c, d) \<leftarrow> filter (\<lambda>(c, d). c \<in> set (active_or_all self ac)) (cities_data self).
                pollution_function self (x_river self ! i) (distance d) (waste d)
                * lateral_factor (Y_adjusted self ! j ! i))"
  using assms
  by (simp add: calculate_pollution_field_def pollution_loop_nth zeros_like_X_nth)

lemma C_total_loop_sum:
  "C_total_loop kk ps x acc = acc + (\<Sum>(nombre, datos) \<leftarrow> ps. C_i kk datos x)"
  by (induction ps arbitrary: acc) (auto simp: algebra_simps)

subsection \<open>A Taylor enclosure of the exponential at a negative argument\<close>

lemma exp_taylor_neg:
  fixes h :: real
  assumes "h < 0" and "0 < n" and "even n"
  shows "(\<Sum>m<n. h ^ m / fact m) < exp h
       \<and> exp h < (\<Sum>m<n. h ^ m / fact m) + h ^ n / fact n"
proof -
  have "\<exists>t. h < t \<and> t < 0
          \<and> exp h = (\<Sum>m<n. exp 0 / fact m * h ^ m) + exp t / fact n * h ^ n"
    by (rule Maclaurin_minus [where diff = "\<lambda>m. exp" and f = exp]) (use assms in auto)
  then obtain t where t: "h < t" "t < 0"
    and eq: "exp h = (\<Sum>m<n. h ^ m / fact m) + exp t / fact n * h ^ n"
    by auto
  have hn: "0 < h ^ n"
    using assms by (simp add: zero_less_power_eq)
  have et: "0 < exp t" "exp t < 1"
    using t by simp_all
  have "0 < exp t / fact n * h ^ n"
    using hn et by simp
  moreover have "exp t / fact n * h ^ n < h ^ n / fact n"
  proof -
    have "exp t * (h ^ n / fact n) < 1 * (h ^ n / fact n)"
      by (rule mult_strict_right_mono) (use et hn in simp_all)
    then show ?thesis by simp
  qed
  ultimately show ?thesis
    using eq by linarith
qed

lemma exp_minus_5_2_bounds:
  "8208 / 100000 < exp (- (5 / 2) :: real) \<and> exp (- (5 / 2) :: real) < 8209 / 100000"
proof -
  have s: "(\<Sum>m<16. (- (5 / 2) :: real) ^ m / fact m) = 2164509335249 / 26369153040384"
    by (simp add: lessThan_nat_numeral lessThan_Suc fact_numeral power_divide)
  have r: "(- (5 / 2) :: real) ^ 16 / fact 16
      = 300145701388903 / 3656522554933248 - 2164509335249 / 26369153040384"
    by (simp add: fact_numeral power_divide)
  have "(\<Sum>m<16. (- (5 / 2) :: real) ^ m / fact m) < exp (- (5 / 2))
      \<and> exp (- (5 / 2)) < (\<Sum>m<16. (- (5 / 2) :: real) ^ m / fact m) + (- (5 / 2)) ^ 16 / fact 16"
    by (rule exp_taylor_neg) simp_all
  then show ?thesis
    unfolding s r by simp
qed

lemma two_sources_total:
  "C_total (1 / 10) [(''s1'', \<lparr>x_i = 0, B = 10\<rparr>), (''s2'', \<lparr>x_i = 50, B = 20\<rparr>)] 25
     = exp (- (5 / 2))"
  by (simp add: C_total_def C_i_def H_def)

subsection \<open>Superposition\<close>

text \<open>
  C3, as the code has it. The total is the sum of the contributions of the sources, one by
  one and without interaction: the profile of funcion.py is the sum of the curves of its
  discharge points, and every cell of the field of prototipo1.py is the sum over the
  active cities of concentration times lateral factor. For the sources at 0 (rate 10)
  and 50 (rate 20) with k = 0.1 the total at 25 is 10 * 0.1 * exp (-0.1 * 25) + 0, a
  number strictly between 0.08208 and 0.08209: it is 0.0821 after rounding, not exactly.
\<close>

theorem C3_superposition:
  "C_total kk ps x = (\<Sum>(nombre, datos) \<leftarrow> ps. C_i kk datos x)
   \<and> (j < lateral_samples self \<and> i < resolution self \<longrightarrow>
        calculate_pollution_field self ac ! j ! i
          = (\<Sum>(c, d) \<leftarrow> filter (\<lambda>(c, d). c \<in> set (active_or_all self ac)) (cities_data self).
               pollution_function self (x_river self ! i) (distance d) (waste d)
               * lateral_factor (Y_adjusted self ! j ! i)))
   \<and> C_total (1 / 10) [(''s1'', \<lparr>x_i = 0, B = 10\<rparr>), (''s2'', \<lparr>x_i = 50, B = 20\<rparr>)] 25
       = 10 * (1 / 10) * exp (- (1 / 10) * 25) + 0
   \<and> 8208 / 100000
       < C_total (1 / 10) [(''s1'', \<lparr>x_i = 0, B = 10\<rparr>), (''s2'', \<lparr>x_i = 50, B = 20\<rparr>)] 25
   \<and> C_total (1 / 10) [(''s1'', \<lparr>x_i = 0, B = 10\<rparr>), (''s2'', \<lparr>x_i = 50, B = 20\<rparr>)] 25
       < 8209 / 100000"
proof -
  have "C_total kk ps x = (\<Sum>(nombre, datos) \<leftarrow> ps. C_i kk datos x)"
    by (simp add: C_total_def C_total_loop_sum)
  moreover have "10 * (1 / 10) * exp (- (1 / 10) * 25) + 0 = exp (- (5 / 2) :: real)"
    by simp
  ultimately show ?thesis
    using exp_minus_5_2_bounds field_nth [of j self i ac]
    by (simp only: two_sources_total) simp
qed

theorem C3_superposition_witness:
  "C_total (1 / 10) puntos 0 = 15 / 100
   \<and> calculate_pollution_field MantaroRiverModel_init (Some [''Jauja'']) ! 0 ! 0 = 0"
proof -
  have x0: "x_river MantaroRiverModel_init ! 0 = 0"
    by (simp add: x_river_def nth_linspace MantaroRiverModel_init_def)
  have "C_total (1 / 10) puntos 0 = 15 / 100"
    using C3_superposition [of "1 / 10" puntos 0]
    by (simp add: puntos_def C_i_def H_def)
  moreover have "calculate_pollution_field MantaroRiverModel_init (Some [''Jauja'']) ! 0 ! 0 = 0"
    using C3_superposition [of _ _ _ 0 MantaroRiverModel_init 0 "Some [''Jauja'']"]
    by (simp add: x0 active_or_all_def pollution_function_def)
       (simp add: MantaroRiverModel_init_def)
  ultimately show ?thesis by simp
qed

text \<open>The total of the two-source scenario is not the decimal 0.0821.\<close>

theorem C3_total_is_not_0_0821:
  "C_total (1 / 10) [(''s1'', \<lparr>x_i = 0, B = 10\<rparr>), (''s2'', \<lparr>x_i = 50, B = 20\<rparr>)] 25
     \<noteq> 821 / 10000"
  using exp_minus_5_2_bounds by (simp only: two_sources_total) simp

subsection \<open>The lateral factor and the cells of the field\<close>


lemma lateral_factor_pos: "0 < lateral_factor y"
  by (simp add: lateral_factor_def)


lemma lateral_factor_eq_1_iff: "lateral_factor y = 1 \<longleftrightarrow> y = 0"
  by (simp add: lateral_factor_def)

lemma lateral_factor_lt_1: "y \<noteq> 0 \<Longrightarrow> lateral_factor y < 1"
  by (simp add: lateral_factor_def)



lemma shape_well_shaped:
  "well_shaped self F \<Longrightarrow> 0 < lateral_samples self
     \<Longrightarrow> shape F = (lateral_samples self, resolution self)"
  by (cases F) (auto simp: well_shaped_def shape_def)

lemma pollution_function_nonneg:
  "0 \<le> k self \<Longrightarrow> 0 \<le> Bi \<Longrightarrow> 0 \<le> pollution_function self x xi Bi"
  by (simp add: pollution_function_def)

lemma field_nth_nonneg:
  assumes "0 < k self" and "list_all (\<lambda>(c, d). 0 \<le> waste d) (cities_data self)"
    and "j < lateral_samples self" and "i < resolution self"
  shows "0 \<le> calculate_pollution_field self ac ! j ! i"
proof -
  have "0 \<le> pollution_function self (x_river self ! i) (distance d) (waste d)
            * lateral_factor (Y_adjusted self ! j ! i)"
    if "(c, d) \<in> set (cities_data self)" for c d
  proof -
    have "0 \<le> waste d"
      using assms(2) that by (auto simp: list_all_iff)
    then show ?thesis
      using assms(1) lateral_factor_pos [of "Y_adjusted self ! j ! i"]
      by (simp add: pollution_function_nonneg)
  qed
  then show ?thesis
    unfolding field_nth [OF assms(3,4)]
    by (intro sum_list_nonneg) auto
qed















text \<open>
  C6, as the code has it. For k > 0 and cities with non-negative waste the field has one
  row for each of the m lateral samples and one column for each of the n longitudinal
  samples (shape m x n, indexed [j, i]), and every cell is a non-negative real.
\<close>

theorem C6_grid_shape_and_sign:
  assumes "0 < k self" and "list_all (\<lambda>(c, d). 0 \<le> waste d) (cities_data self)"
  shows "length (calculate_pollution_field self ac) = lateral_samples self
       \<and> (\<forall>row \<in> set (calculate_pollution_field self ac).
             length row = resolution self \<and> (\<forall>v \<in> set row. 0 \<le> v))"
proof -
  let ?F = "calculate_pollution_field self ac"
  have ws: "well_shaped self ?F"
    by (rule well_shaped_field)
  then have len: "length ?F = lateral_samples self"
    by (simp add: well_shaped_def)
  have "length row = resolution self \<and> (\<forall>v \<in> set row. 0 \<le> v)" if row: "row \<in> set ?F" for row
  proof -
    obtain j where j: "j < length ?F" "?F ! j = row"
      using row unfolding in_set_conv_nth by blast
    have lr: "length row = resolution self"
      using ws row by (simp add: well_shaped_def list_all_iff)
    have "0 \<le> v" if v: "v \<in> set row" for v
    proof -
      obtain i where i: "i < length row" "row ! i = v"
        using v unfolding in_set_conv_nth by blast
      have "j < lateral_samples self" and "i < resolution self"
        using j(1) i(1) len lr by simp_all
      then have "0 \<le> ?F ! j ! i"
        by (rule field_nth_nonneg [OF assms])
      then show ?thesis
        unfolding j(2) i(2) .
    qed
    then show ?thesis using lr by blast
  qed
  then show ?thesis using len by blast
qed

theorem C6_grid_witness:
  "length (calculate_pollution_field MantaroRiverModel_init None) = 50
   \<and> list_all (\<lambda>row. length row = 100 \<and> list_all (\<lambda>v. 0 \<le> v) row)
        (calculate_pollution_field MantaroRiverModel_init None)"
  using C6_grid_shape_and_sign [of MantaroRiverModel_init None]
  by (simp add: MantaroRiverModel_init_def list_all_iff)

text \<open>
  The field of the constructed model has shape (50, 100): lateral samples first, while
  the resolution along the river is 100 and the lateral count is 50.
\<close>

theorem C6_shape_is_lateral_by_longitudinal:
  "shape (calculate_pollution_field MantaroRiverModel_init None) = (50, 100)
   \<and> (resolution MantaroRiverModel_init, lateral_samples MantaroRiverModel_init) = (100, 50)"
  using shape_well_shaped [OF well_shaped_field, of MantaroRiverModel_init None]
  by (simp add: MantaroRiverModel_init_def)

subsection \<open>Construction\<close>





subsection \<open>Repeated evaluation on the store\<close>

lemma mat_add_frame:
  "mat_add st a j i v = Inr st' \<Longrightarrow> length st' = length st \<and> (\<forall>b. b \<noteq> a \<longrightarrow> st' ! b = st ! b)"
  by (auto simp: mat_add_def split: if_splits ndarray.splits)

lemma lateral_loop_frame:
  "lateral_loop self f c i js st = Inr st'
     \<Longrightarrow> length st' = length st \<and> (\<forall>b. b \<noteq> f \<longrightarrow> st' ! b = st ! b)"
proof (induction js arbitrary: st)
  case Nil
  then show ?case by simp
next
  case (Cons j js)
  from Cons.prems obtain y st1 where "mat_add st f j i (c * lateral_factor y) = Inr st1"
    and rest: "lateral_loop self f c i js st1 = Inr st'"
    by (auto split: sum.splits)
  then show ?case
    using mat_add_frame Cons.IH [OF rest] by fastforce
qed

lemma river_loop_frame:
  "river_loop self f d is st = Inr st'
     \<Longrightarrow> length st' = length st \<and> (\<forall>b. b \<noteq> f \<longrightarrow> st' ! b = st ! b)"
proof (induction "is" arbitrary: st)
  case Nil
  then show ?case by simp
next
  case (Cons i rest)
  from Cons.prems obtain c n st1 where "lateral_loop self f c i [0..<n] st = Inr st1"
    and rest: "river_loop self f d rest st1 = Inr st'"
    by (auto split: sum.splits)
  then show ?case
    using lateral_loop_frame Cons.IH [OF rest] by fastforce
qed

lemma city_loop_frame:
  "city_loop self active f cs st = Inr st'
     \<Longrightarrow> length st' = length st \<and> (\<forall>b. b \<noteq> f \<longrightarrow> st' ! b = st ! b)"
proof (induction cs arbitrary: st)
  case Nil
  then show ?case by simp
next
  case (Cons cd cs)
  obtain c d where cd: "cd = (c, d)" by (cases cd)
  show ?case
  proof (cases "c \<in> set active")
    case True
    with Cons.prems obtain st1 where "river_loop self f d [0..<resolution self] st = Inr st1"
      and rest: "city_loop self active f cs st1 = Inr st'"
      by (auto simp: cd split: sum.splits)
    then show ?thesis
      using river_loop_frame Cons.IH [OF rest] by fastforce
  next
    case False
    then show ?thesis
      using Cons.prems Cons.IH by (simp add: cd)
  qed
qed

lemma linked_reads:
  assumes "linked self f f' st g"
  shows "vec_read st (x_river_at self) i = vec_read g (x_river_at self) i"
    and "vec_len st (y_river_at self) = vec_len g (y_river_at self)"
    and "mat_read st (Y_adjusted_at self) j i = mat_read g (Y_adjusted_at self) j i"
  using assms by (simp_all add: linked_def vec_read_def vec_len_def mat_read_def)

lemma linked_mat_add:
  assumes "linked self f f' st g" and "mat_add st f j i v = Inr st'"
  shows "\<exists>g'. mat_add g f' j i v = Inr g' \<and> linked self f f' st' g'"
proof -
  from assms(2) obtain m where m: "st ! f = Mat m" "j < length m" "i < length (m ! j)"
    and st': "st' = st[f := Mat (m[j := (m ! j)[i := m ! j ! i + v]])]"
    by (auto simp: mat_add_def split: if_splits ndarray.splits)
  have g: "g ! f' = Mat m" "f' < length g" "f < length st"
    using assms(1) m(1) by (simp_all add: linked_def)
  let ?g' = "g[f' := Mat (m[j := (m ! j)[i := m ! j ! i + v]])]"
  have "mat_add g f' j i v = Inr ?g'"
    using g m by (simp add: mat_add_def)
  moreover have "linked self f f' st' ?g'"
    using assms(1) g by (simp add: linked_def st')
  ultimately show ?thesis by blast
qed

lemma linked_lateral_loop:
  "linked self f f' st g \<Longrightarrow> lateral_loop self f c i js st = Inr st'
     \<Longrightarrow> \<exists>g'. lateral_loop self f' c i js g = Inr g' \<and> linked self f f' st' g'"
proof (induction js arbitrary: st g)
  case Nil
  then show ?case by simp
next
  case (Cons j js)
  from Cons.prems(2) obtain y st1 where y: "mat_read st (Y_adjusted_at self) j i = Inr y"
    and add: "mat_add st f j i (c * lateral_factor y) = Inr st1"
    and rest: "lateral_loop self f c i js st1 = Inr st'"
    by (auto split: sum.splits)
  obtain g1 where g1: "mat_add g f' j i (c * lateral_factor y) = Inr g1"
    and l1: "linked self f f' st1 g1"
    using linked_mat_add [OF Cons.prems(1) add] by blast
  obtain g' where "lateral_loop self f' c i js g1 = Inr g'" "linked self f f' st' g'"
    using Cons.IH [OF l1 rest] by blast
  then show ?case
    using y g1 linked_reads(3) [OF Cons.prems(1), of j i] by simp
qed

lemma linked_river_loop:
  "linked self f f' st g \<Longrightarrow> river_loop self f d is st = Inr st'
     \<Longrightarrow> \<exists>g'. river_loop self f' d is g = Inr g' \<and> linked self f f' st' g'"
proof (induction "is" arbitrary: st g)
  case Nil
  then show ?case by simp
next
  case (Cons i rest)
  from Cons.prems(2) obtain x n st1 where x: "vec_read st (x_river_at self) i = Inr x"
    and n: "vec_len st (y_river_at self) = Inr n"
    and lat: "lateral_loop self f (pollution_function self x (distance d) (waste d)) i [0..<n] st
                = Inr st1"
    and more: "river_loop self f d rest st1 = Inr st'"
    by (auto split: sum.splits)
  obtain g1 where g1: "lateral_loop self f' (pollution_function self x (distance d) (waste d))
      i [0..<n] g = Inr g1" and l1: "linked self f f' st1 g1"
    using linked_lateral_loop [OF Cons.prems(1) lat] by blast
  obtain g' where "river_loop self f' d rest g1 = Inr g'" "linked self f f' st' g'"
    using Cons.IH [OF l1 more] by blast
  then show ?case
    using x n g1 linked_reads(1,2) [OF Cons.prems(1)] by simp
qed

lemma linked_city_loop:
  "linked self f f' st g \<Longrightarrow> city_loop self active f cs st = Inr st'
     \<Longrightarrow> \<exists>g'. city_loop self active f' cs g = Inr g' \<and> linked self f f' st' g'"
proof (induction cs arbitrary: st g)
  case Nil
  then show ?case by simp
next
  case (Cons cd cs)
  obtain c d where cd: "cd = (c, d)" by (cases cd)
  show ?case
  proof (cases "c \<in> set active")
    case True
    with Cons.prems(2) obtain st1 where
      riv: "river_loop self f d [0..<resolution self] st = Inr st1" and
      more: "city_loop self active f cs st1 = Inr st'"
      by (auto simp: cd split: sum.splits)
    obtain g1 where g1: "river_loop self f' d [0..<resolution self] g = Inr g1"
      and l1: "linked self f f' st1 g1"
      using linked_river_loop [OF Cons.prems(1) riv] by blast
    obtain g' where "city_loop self active f' cs g1 = Inr g'" "linked self f f' st' g'"
      using Cons.IH [OF l1 more] by blast
    then show ?thesis
      using True g1 by (simp add: cd)
  next
    case False
    then show ?thesis
      using Cons.prems Cons.IH by (simp add: cd)
  qed
qed

lemma calculate_frame:
  assumes "calculate_pollution_field_st self ac st = Inr (f, st')"
  shows "f = length st \<and> length st' = Suc (length st) \<and> take (length st) st' = st"
proof -
  from assms obtain st0 where
    al: "alloc_zeros_like st (X_at self) = Inr (f, st0)" and
    cl: "city_loop self (case ac of None \<Rightarrow> map fst (cities_data self) | Some a \<Rightarrow> a) f
           (cities_data self) st0 = Inr st'"
    by (auto simp: calculate_pollution_field_st_def Let_def split: sum.splits)
  from al have f: "f = length st" and st0: "length st0 = Suc (length st)" "take (length st) st0 = st"
    by (auto simp: alloc_zeros_like_def split: if_splits ndarray.splits)
  from city_loop_frame [OF cl] have len: "length st' = length st0"
    and same: "\<And>b. b \<noteq> f \<Longrightarrow> st' ! b = st0 ! b"
    by simp_all
  have "take (length st) st' = take (length st) st0"
    by (rule nth_take_lemma) (use len st0 same f in auto)
  then show ?thesis
    using f len st0 by simp
qed

lemma calculate_twice:
  assumes "refs_allocated self st"
    and "calculate_pollution_field_st self ac st = Inr (f1, st1)"
  shows "\<exists>f2 st2. calculate_pollution_field_st self ac st1 = Inr (f2, st2)
           \<and> st2 ! f2 = st1 ! f1 \<and> st2 ! f1 = st1 ! f1"
proof -
  let ?active = "case ac of None \<Rightarrow> map fst (cities_data self) | Some a \<Rightarrow> a"
  from assms(2) obtain st0 where
    al: "alloc_zeros_like st (X_at self) = Inr (f1, st0)" and
    cl: "city_loop self ?active f1 (cities_data self) st0 = Inr st1"
    by (auto simp: calculate_pollution_field_st_def Let_def split: sum.splits)
  have fr: "f1 = length st" "length st1 = Suc (length st)" "take (length st) st1 = st"
    using calculate_frame [OF assms(2)] by simp_all
  have old: "st1 ! r = st ! r" if "r < length st" for r
    using that fr(3) by (metis nth_take)
  have old0: "st0 ! r = st ! r" if "r < length st" for r
    using that al by (auto simp: alloc_zeros_like_def nth_append split: if_splits ndarray.splits)
  have X: "X_at self < length st"
    using assms(1) by (simp add: refs_allocated_def)
  obtain z where z: "st0 = st @ [z]"
    and g0: "alloc_zeros_like st1 (X_at self) = Inr (length st1, st1 @ [z])"
    using al X old [OF X] fr(2)
    by (auto simp: alloc_zeros_like_def split: if_splits ndarray.splits)
  have "linked self f1 (length st1) st0 (st1 @ [z])"
    using assms(1) old old0 fr
    by (auto simp: linked_def refs_allocated_def z nth_append)
  then obtain g' where g': "city_loop self ?active (length st1) (cities_data self) (st1 @ [z])
      = Inr g'" and l: "linked self f1 (length st1) st1 g'"
    using linked_city_loop [OF _ cl] by blast
  have call2: "calculate_pollution_field_st self ac st1 = Inr (length st1, g')"
    using g0 g' by (simp add: calculate_pollution_field_st_def Let_def)
  have "g' ! f1 = (st1 @ [z]) ! f1"
    using city_loop_frame [OF g'] fr by simp
  then have "g' ! f1 = st1 ! f1"
    using fr by (simp add: nth_append)
  moreover have "g' ! length st1 = st1 ! f1"
    using l by (simp add: linked_def)
  ultimately show ?thesis
    using call2 by blast
qed

lemma well_shaped_eqI:
  assumes "well_shaped m M" and "well_shaped m N"
    and "\<And>j i. j < lateral_samples m \<Longrightarrow> i < resolution m \<Longrightarrow> M ! j ! i = N ! j ! i"
  shows "M = N"
proof (rule nth_equalityI)
  show "length M = length N"
    using assms(1,2) by (simp add: well_shaped_def)
next
  fix j assume j: "j < length M"
  then have jl: "j < lateral_samples m"
    using assms(1) by (simp add: well_shaped_def)
  have lm: "length (M ! j) = resolution m" and ln: "length (N ! j) = resolution m"
    using assms(1,2) j by (simp_all add: well_shaped_def list_all_length)
  show "M ! j = N ! j"
    by (rule nth_equalityI) (use lm ln jl assms(3) in auto)
qed

lemma well_shaped_cell_update:
  assumes "well_shaped m M"
  shows "well_shaped m (M[j := (M ! j)[i := v]])"
proof -
  have "length ((M[j := (M ! j)[i := v]]) ! a) = resolution m" if "a < length M" for a
  proof (cases "a = j")
    case True
    then show ?thesis
      using assms that by (simp add: well_shaped_def list_all_length)
  next
    case False
    then show ?thesis
      using assms that by (simp add: well_shaped_def list_all_length)
  qed
  then show ?thesis
    using assms by (simp add: well_shaped_def list_all_length)
qed

lemma well_shaped_column_added: "well_shaped m (column_added m c i n M)"
  by (simp add: well_shaped_def column_added_def list_all_iff)

lemma well_shaped_columns_added: "well_shaped m (columns_added m d r M)"
  by (simp add: well_shaped_def columns_added_def list_all_iff)

lemma column_added_nth:
  "j < lateral_samples m \<Longrightarrow> i' < resolution m \<Longrightarrow>
     column_added m c i n M ! j ! i'
       = M ! j ! i' + (if i' = i \<and> j < n then c * lateral_factor (Y_adjusted m ! j ! i) else 0)"
  by (simp add: column_added_def)

lemma columns_added_nth:
  "j < lateral_samples m \<Longrightarrow> i < resolution m \<Longrightarrow>
     columns_added m d r M ! j ! i
       = M ! j ! i + (if i < r
                      then pollution_function m (x_river m ! i) (distance d) (waste d)
                           * lateral_factor (Y_adjusted m ! j ! i)
                      else 0)"
  by (simp add: columns_added_def)

lemma column_added_0: "well_shaped m M \<Longrightarrow> column_added m c i 0 M = M"
  by (rule well_shaped_eqI [OF well_shaped_column_added]) (simp_all add: column_added_nth)

lemma columns_added_0: "well_shaped m M \<Longrightarrow> columns_added m d 0 M = M"
  by (rule well_shaped_eqI [OF well_shaped_columns_added]) (simp_all add: columns_added_nth)

lemma columns_added_all: "columns_added m d (resolution m) M = add_city m d M"
  by (simp add: columns_added_def add_city_def length_y_river)

lemma lateral_loop_append:
  "lateral_loop self f c i (js @ ks) st =
     (case lateral_loop self f c i js st of
        Inl e \<Rightarrow> Inl e
      | Inr st' \<Rightarrow> lateral_loop self f c i ks st')"
  by (induction js arbitrary: st) (auto split: sum.splits)

lemma river_loop_append:
  "river_loop self f d (is @ ks) st =
     (case river_loop self f d is st of
        Inl e \<Rightarrow> Inl e
      | Inr st' \<Rightarrow> river_loop self f d ks st')"
  by (induction "is" arbitrary: st) (auto split: sum.splits)

lemma holds_mesh_update:
  "holds_mesh m self st \<Longrightarrow> field_at_ok self f st \<Longrightarrow> holds_mesh m self (st[f := a])"
  by (simp add: holds_mesh_def field_at_ok_def refs_allocated_def)

lemma field_at_ok_update: "field_at_ok self f st \<Longrightarrow> field_at_ok self f (st[f := a])"
  by (simp add: field_at_ok_def)

lemma Y_adjusted_shape:
  "length (Y_adjusted m) = lateral_samples m"
  "j < lateral_samples m \<Longrightarrow> length (Y_adjusted m ! j) = resolution m"
  by (simp_all add: Y_adjusted_def length_y_river length_x_river)

lemma lateral_loop_closed:
  assumes "holds_mesh m self st" and "field_at_ok self f st" and "well_shaped m M"
    and "i < resolution m"
  shows "n \<le> lateral_samples m \<Longrightarrow> st ! f = Mat M \<Longrightarrow>
         lateral_loop self f c i [0..<n] st = Inr (st[f := Mat (column_added m c i n M)])"
proof (induction n)
  case 0
  then show ?case
    using assms(3) by (simp add: column_added_0) (metis list_update_id)
next
  case (Suc n)
  let ?st1 = "st[f := Mat (column_added m c i n M)]"
  let ?M1 = "column_added m c i n M"
  have n: "n < lateral_samples m"
    using Suc.prems(1) by simp
  have first: "lateral_loop self f c i [0..<n] st = Inr ?st1"
    using Suc.IH Suc.prems by simp
  have f: "f < length st"
    using assms(2) by (simp add: field_at_ok_def)
  have mesh1: "holds_mesh m self ?st1"
    using holds_mesh_update [OF assms(1,2)] .
  have rd: "mat_read ?st1 (Y_adjusted_at self) n i = Inr (Y_adjusted m ! n ! i)"
    using mesh1 n assms(4)
    by (simp add: mat_read_def holds_mesh_def refs_allocated_def Y_adjusted_shape)
  have ws1: "well_shaped m ?M1"
    by (rule well_shaped_column_added)
  then have sh: "n < length ?M1" "i < length (?M1 ! n)"
    using n assms(4) by (simp_all add: well_shaped_def list_all_length)
  have upd: "?M1[n := (?M1 ! n)[i := ?M1 ! n ! i + c * lateral_factor (Y_adjusted m ! n ! i)]]
      = column_added m c i (Suc n) M" (is "?L = ?R")
  proof (rule well_shaped_eqI [of m])
    show "well_shaped m ?L"
      using ws1 by (rule well_shaped_cell_update)
    show "well_shaped m ?R"
      by (rule well_shaped_column_added)
    fix j i' assume ji: "j < lateral_samples m" "i' < resolution m"
    have lj: "j < length ?M1" "i' < length (?M1 ! j)"
      using ws1 ji by (simp_all add: well_shaped_def list_all_length)
    show "?L ! j ! i' = ?R ! j ! i'"
      using ji lj sh n assms(4)
      by (auto simp: nth_list_update column_added_nth less_Suc_eq)
  qed
  have add: "mat_add ?st1 f n i (c * lateral_factor (Y_adjusted m ! n ! i))
      = Inr (st[f := Mat (column_added m c i (Suc n) M)])"
    using f sh by (simp add: mat_add_def upd)
  show ?case
    using first rd add by (simp add: lateral_loop_append)
qed

lemma pollution_function_same_k:
  "k a = k b \<Longrightarrow> pollution_function a x xi Bi = pollution_function b x xi Bi"
  by (simp add: pollution_function_def)

lemma river_loop_closed:
  assumes "holds_mesh m self st" and "field_at_ok self f st" and "well_shaped m M"
  shows "r \<le> resolution m \<Longrightarrow> st ! f = Mat M \<Longrightarrow>
         river_loop self f d [0..<r] st = Inr (st[f := Mat (columns_added m d r M)])"
proof (induction r)
  case 0
  then show ?case
    using assms(3) by (simp add: columns_added_0) (metis list_update_id)
next
  case (Suc r)
  let ?M1 = "columns_added m d r M"
  let ?st1 = "st[f := Mat ?M1]"
  let ?c = "pollution_function m (x_river m ! r) (distance d) (waste d)"
  have r: "r < resolution m"
    using Suc.prems(1) by simp
  have first: "river_loop self f d [0..<r] st = Inr ?st1"
    using Suc.IH Suc.prems by simp
  have f: "f < length st"
    using assms(2) by (simp add: field_at_ok_def)
  have mesh1: "holds_mesh m self ?st1"
    using holds_mesh_update [OF assms(1,2)] .
  have ok1: "field_at_ok self f ?st1"
    using field_at_ok_update [OF assms(2)] .
  have x: "vec_read ?st1 (x_river_at self) r = Inr (x_river m ! r)"
    using mesh1 r by (simp add: vec_read_def holds_mesh_def refs_allocated_def length_x_river)
  have n: "vec_len ?st1 (y_river_at self) = Inr (lateral_samples m)"
    using mesh1 by (simp add: vec_len_def holds_mesh_def refs_allocated_def length_y_river)
  have c: "pollution_function self (x_river m ! r) (distance d) (waste d) = ?c"
    by (rule pollution_function_same_k) (use assms(1) in \<open>simp add: holds_mesh_def\<close>)
  have lat: "lateral_loop self f ?c r [0..<lateral_samples m] ?st1
      = Inr (?st1[f := Mat (column_added m ?c r (lateral_samples m) ?M1)])"
    by (rule lateral_loop_closed [OF mesh1 ok1 well_shaped_columns_added r])
       (use f in simp_all)
  have eq: "column_added m ?c r (lateral_samples m) ?M1 = columns_added m d (Suc r) M"
    by (rule well_shaped_eqI [OF well_shaped_column_added well_shaped_columns_added])
       (auto simp: column_added_nth columns_added_nth less_Suc_eq)
  show ?case
    using first x n lat by (simp add: river_loop_append c eq)
qed

lemma city_loop_closed:
  "holds_mesh m self st \<Longrightarrow> field_at_ok self f st \<Longrightarrow> well_shaped m M \<Longrightarrow> st ! f = Mat M
     \<Longrightarrow> city_loop self active f cs st = Inr (st[f := Mat (pollution_loop m active cs M)])"
proof (induction cs arbitrary: st M)
  case Nil
  then show ?case by simp (metis list_update_id)
next
  case (Cons cd cs)
  obtain c d where cd: "cd = (c, d)" by (cases cd)
  show ?case
  proof (cases "c \<in> set active")
    case True
    let ?M1 = "add_city m d M"
    let ?st1 = "st[f := Mat ?M1]"
    have res: "resolution self = resolution m"
      using Cons.prems(1) by (simp add: holds_mesh_def)
    have f: "f < length st"
      using Cons.prems(2) by (simp add: field_at_ok_def)
    have riv: "river_loop self f d [0..<resolution self] st = Inr ?st1"
      using river_loop_closed [OF Cons.prems(1,2,3), of "resolution m" d] Cons.prems(4)
      by (simp add: res columns_added_all)
    have "city_loop self active f cs ?st1
        = Inr (?st1[f := Mat (pollution_loop m active cs ?M1)])"
      by (rule Cons.IH [OF holds_mesh_update [OF Cons.prems(1,2)]
            field_at_ok_update [OF Cons.prems(2)] well_shaped_add_city])
         (use f in simp)
    then show ?thesis
      using True riv by (simp add: cd)
  next
    case False
    then show ?thesis
      using Cons.IH [OF Cons.prems] by (simp add: cd)
  qed
qed

lemma calculate_closed:
  assumes "holds_mesh m self st"
  shows "calculate_pollution_field_st self ac st
           = Inr (length st, st @ [Mat (calculate_pollution_field m ac)])"
proof -
  let ?z = "Mat (zeros_like (X m))"
  let ?active = "case ac of None \<Rightarrow> map fst (cities_data self) | Some a \<Rightarrow> a"
  have refs: "refs_allocated self st" and X: "st ! X_at self = Mat (X m)"
    and cd: "cities_data self = cities_data m"
    using assms by (simp_all add: holds_mesh_def)
  have al: "alloc_zeros_like st (X_at self) = Inr (length st, st @ [?z])"
    using refs X by (simp add: alloc_zeros_like_def refs_allocated_def)
  have mesh0: "holds_mesh m self (st @ [?z])"
    using assms by (simp add: holds_mesh_def refs_allocated_def nth_append)
  have ok0: "field_at_ok self (length st) (st @ [?z])"
    using refs by (auto simp: field_at_ok_def refs_allocated_def)
  have act: "?active = active_or_all m ac"
    by (simp only: active_or_all_def cd)
  have "city_loop self ?active (length st) (cities_data self) (st @ [?z])
      = Inr ((st @ [?z])[length st := Mat (pollution_loop m ?active (cities_data self)
                                            (zeros_like (X m)))])"
    by (rule city_loop_closed [OF mesh0 ok0 well_shaped_zeros]) simp
  then have "city_loop self ?active (length st) (cities_data self) (st @ [?z])
      = Inr (st @ [Mat (calculate_pollution_field m ac)])"
    by (simp add: calculate_pollution_field_def act cd)
  then show ?thesis
    using al by (simp add: calculate_pollution_field_st_def Let_def)
qed

lemma holds_mesh_constructed:
  "holds_mesh m (fst (MantaroRiverModel_object m)) (snd (MantaroRiverModel_object m))"
  by (simp add: holds_mesh_def MantaroRiverModel_object_def refs_allocated_def
      river_model.defs)

text \<open>
  C8. A call of \<open>calculate_pollution_field\<close> that returns allocates one new array, its
  result, and changes no array that existed before: the field accumulates in the fresh
  array and the arrays of the object are only read. A second call with the same active
  cities therefore returns, its result has the contents of the first, and the first
  result is left as it was. On an object whose arrays are those built by the constructor
  the call returns the field as computed from the attributes alone.
  \<open>pollution_function\<close> reads no array and, of the object, only the attribute k.
\<close>

theorem C8_two_evaluations_identical:
  "(calculate_pollution_field_st self ac st = Inr (f1, st1) \<longrightarrow>
      f1 = length st \<and> take (length st) st1 = st
      \<and> (refs_allocated self st \<longrightarrow>
           (\<exists>f2 st2. calculate_pollution_field_st self ac st1 = Inr (f2, st2)
               \<and> st2 ! f2 = st1 ! f1 \<and> st2 ! f1 = st1 ! f1)))
   \<and> (holds_mesh m self st \<longrightarrow>
        calculate_pollution_field_st self ac st
          = Inr (length st, st @ [Mat (calculate_pollution_field m ac)]))
   \<and> (k a = k b \<longrightarrow> pollution_function a x xi Bi = pollution_function b x xi Bi)"
  using calculate_frame [of self ac st f1 st1] calculate_twice [of self st ac f1 st1]
    calculate_closed [of m self st ac] pollution_function_same_k [of a b x xi Bi]
  by blast

theorem C8_two_evaluations_witness:
  "calculate_pollution_field_st (fst (MantaroRiverModel_object MantaroRiverModel_init)) None
      (snd (MantaroRiverModel_object MantaroRiverModel_init))
     = Inr (4, snd (MantaroRiverModel_object MantaroRiverModel_init)
               @ [Mat (calculate_pollution_field MantaroRiverModel_init None)])
   \<and> (\<exists>f2 st2.
        calculate_pollution_field_st (fst (MantaroRiverModel_object MantaroRiverModel_init)) None
          (snd (MantaroRiverModel_object MantaroRiverModel_init)
           @ [Mat (calculate_pollution_field MantaroRiverModel_init None)])
          = Inr (f2, st2)
        \<and> st2 ! f2 = Mat (calculate_pollution_field MantaroRiverModel_init None)
        \<and> st2 ! 4 = Mat (calculate_pollution_field MantaroRiverModel_init None))
   \<and> pollution_function MantaroRiverModel_init 60 53 (105 / 10)
       = pollution_function MantaroRiverAnimation_init 60 53 (105 / 10)"
proof -
  let ?m = MantaroRiverModel_init
  let ?obj = "fst (MantaroRiverModel_object ?m)"
  let ?st = "snd (MantaroRiverModel_object ?m)"
  let ?F = "Mat (calculate_pollution_field ?m None)"
  note C8 = C8_two_evaluations_identical
    [where self = ?obj and ac = None and st = ?st and m = ?m and ?f1.0 = 4
       and ?st1.0 = "?st @ [?F]" and a = ?m and b = MantaroRiverAnimation_init
       and x = 60 and xi = 53 and Bi = "105 / 10"]
  have len: "length ?st = 4"
    by (simp add: MantaroRiverModel_object_def)
  have refs: "refs_allocated ?obj ?st"
    using holds_mesh_constructed [of ?m] by (simp add: holds_mesh_def)
  have kk: "k ?m = k MantaroRiverAnimation_init"
    by (simp add: MantaroRiverModel_init_def MantaroRiverAnimation_init_def)
  have first: "calculate_pollution_field_st ?obj None ?st = Inr (4, ?st @ [?F])"
    using C8 holds_mesh_constructed [of ?m] len by simp
  then have "\<exists>f2 st2. calculate_pollution_field_st ?obj None (?st @ [?F]) = Inr (f2, st2)
      \<and> st2 ! f2 = (?st @ [?F]) ! 4 \<and> st2 ! 4 = (?st @ [?F]) ! 4"
    using C8 refs by blast
  moreover have "(?st @ [?F]) ! 4 = ?F"
    using len by (simp add: nth_append)
  ultimately show ?thesis
    using first C8 kk by simp
qed

subsection \<open>Removing indices from a list\<close>

lemma pop_all_append:
  "pop_all js xs = Inr r \<Longrightarrow> pop_all js (xs @ ys) = Inr (r @ ys)"
proof (induction js arbitrary: xs)
  case Nil
  then show ?case by simp
next
  case (Cons i js)
  from Cons.prems have i: "i < length xs"
    and rest: "pop_all js (take i xs @ drop (Suc i) xs) = Inr r"
    by (auto split: if_splits)
  show ?case
    using i Cons.IH [OF rest] by simp
qed

lemma sorted_list_of_set_insert_max:
  fixes n :: nat
  assumes "finite S" and "\<forall>m \<in> S. m < n"
  shows "sorted_list_of_set (insert n S) = sorted_list_of_set S @ [n]"
proof -
  have "n \<notin> S" using assms(2) by auto
  then have "sorted_list_of_set (insert n S) = insort n (sorted_list_of_set S)"
    using assms(1) by simp
  also have "\<dots> = sorted_list_of_set S @ [n]"
    by (rule sorted_insort_is_snoc) (use assms in \<open>auto simp: less_imp_le\<close>)
  finally show ?thesis .
qed

lemma pop_all_filter:
  "pop_all (rev (sorted_list_of_set {n. n < length xs \<and> \<not> good (xs ! n)})) xs
     = Inr (filter good xs)"
proof (induction xs rule: rev_induct)
  case Nil
  then show ?case by simp
next
  case (snoc x xs)
  let ?S = "{n. n < length xs \<and> \<not> good (xs ! n)}"
  let ?S' = "{n. n < length (xs @ [x]) \<and> \<not> good ((xs @ [x]) ! n)}"
  have fin: "finite ?S" by simp
  have below: "\<forall>m \<in> ?S. m < length xs" by simp
  show ?case
  proof (cases "good x")
    case True
    have "?S' = ?S"
      using True by (auto simp: nth_append less_Suc_eq)
    then show ?thesis
      using pop_all_append [OF snoc.IH, of "[x]"] True by simp
  next
    case False
    have "?S' = insert (length xs) ?S"
      using False by (auto simp: nth_append less_Suc_eq)
    then have "sorted_list_of_set ?S' = sorted_list_of_set ?S @ [length xs]"
      using sorted_list_of_set_insert_max [OF fin below] by simp
    then show ?thesis
      using snoc.IH False by simp
  qed
qed

lemma move_particle_moved: "move_particle self noise p = Inr q \<Longrightarrow> moved self p q"
  by (auto simp: move_particle_def moved_def Let_def split: if_splits sum.splits)

lemma moved_restyle: "moved self p q \<Longrightarrow> moved self p (restyle q c)"
  by (simp add: moved_def restyle_def)

lemma dispersion_restyle: "dispersion self (restyle q c) = dispersion self q"
  by (simp add: dispersion_def restyle_def)

lemma restyle_fields [simp]:
  "p_x (restyle q c) = p_x q" "p_age (restyle q c) = p_age q"
  by (simp_all add: restyle_def)

lemma set_removal_marks:
  "set (removal_marks self (restyle q (dispersion self q)) (dispersion self q) i)
     = (if survives self (restyle q (dispersion self q)) then {} else {i})"
  by (auto simp: removal_marks_def survives_def dispersion_restyle)

lemma update_loop_spec:
  "update_loop self rnd i ps = Inr (qs, marks) \<Longrightarrow>
     list_all2 (moved self) ps qs
     \<and> set marks = {n. i \<le> n \<and> n < i + length qs \<and> \<not> survives self (qs ! (n - i))}"
proof (induction ps arbitrary: i qs marks)
  case Nil
  then show ?case by auto
next
  case (Cons p rest)
  from Cons.prems obtain p1 qs' marks' where
    mv: "move_particle self (rnd i) p = Inr p1" and
    rec: "update_loop self rnd (Suc i) rest = Inr (qs', marks')" and
    qs: "qs = restyle p1 (dispersion self p1) # qs'" and
    marks: "marks = removal_marks self (restyle p1 (dispersion self p1)) (dispersion self p1) i
                    @ marks'"
    by (auto simp: Let_def split: sum.splits)
  let ?q = "restyle p1 (dispersion self p1)"
  from Cons.IH [OF rec] have ih1: "list_all2 (moved self) rest qs'"
    and ih2: "set marks' = {n. Suc i \<le> n \<and> n < Suc i + length qs'
                               \<and> \<not> survives self (qs' ! (n - Suc i))}"
    by simp_all
  have "moved self p ?q"
    using mv by (simp add: move_particle_moved moved_restyle)
  then have a: "list_all2 (moved self) (p # rest) qs"
    using ih1 qs by simp
  have b: "set marks = {n. i \<le> n \<and> n < i + length qs \<and> \<not> survives self (qs ! (n - i))}"
  proof (rule set_eqI)
    fix n
    show "n \<in> set marks
      \<longleftrightarrow> n \<in> {n. i \<le> n \<and> n < i + length qs \<and> \<not> survives self (qs ! (n - i))}"
    proof (cases "n = i")
      case True
      then show ?thesis
        by (simp add: marks qs set_removal_marks ih2)
    next
      case False
      then have "n \<le> i \<or> (qs ! (n - i) = qs' ! (n - Suc i) \<and> Suc i \<le> n)"
        by (auto simp: qs nth_Cons')
      then show ?thesis
        using False by (auto simp: marks qs set_removal_marks ih2)
    qed
  qed
  show ?case using a b by simp
qed

lemma update_particles_Inr:
  assumes "update_particles self rnd = Inr self'"
  shows "\<exists>qs marks. update_loop self rnd 0 (waste_particles self) = Inr (qs, marks)
           \<and> list_all2 (moved self) (waste_particles self) qs
           \<and> self' = self\<lparr>waste_particles := filter (survives self) qs\<rparr>"
proof -
  from assms obtain qs marks ps' where
    loop: "update_loop self rnd 0 (waste_particles self) = Inr (qs, marks)" and
    pop: "pop_all (rev (sort (remdups marks))) qs = Inr ps'" and
    self': "self' = self\<lparr>waste_particles := ps'\<rparr>"
    by (auto simp: update_particles_def split: sum.splits)
  from update_loop_spec [OF loop]
  have mv: "list_all2 (moved self) (waste_particles self) qs"
    and m: "set marks = {n. n < length qs \<and> \<not> survives self (qs ! n)}"
    by simp_all
  have "sort (remdups marks) = sorted_list_of_set {n. n < length qs \<and> \<not> survives self (qs ! n)}"
    using m by (metis sorted_list_of_set_sort_remdups)
  then have "pop_all (rev (sort (remdups marks))) qs = Inr (filter (survives self) qs)"
    by (simp add: pop_all_filter)
  then have "ps' = filter (survives self) qs"
    using pop by simp
  then show ?thesis
    using loop mv self' by blast
qed

lemma update_particles_eq:
  assumes "update_loop self rnd 0 (waste_particles self) = Inr (qs, marks)"
  shows "update_particles self rnd = Inr (self\<lparr>waste_particles := filter (survives self) qs\<rparr>)"
proof -
  from update_loop_spec [OF assms]
  have m: "set marks = {n. n < length qs \<and> \<not> survives self (qs ! n)}"
    by simp
  have "sort (remdups marks) = sorted_list_of_set {n. n < length qs \<and> \<not> survives self (qs ! n)}"
    using m by (metis sorted_list_of_set_sort_remdups)
  then have "pop_all (rev (sort (remdups marks))) qs = Inr (filter (survives self) qs)"
    by (simp add: pop_all_filter)
  then show ?thesis
    using assms by (simp add: update_particles_def)
qed

lemma length_path_y_river: "length (path_y_river self) = resolution self"
  by (simp add: path_y_river_def length_x_river)

lemma length_path_z_river: "length (path_z_river self) = resolution self"
  by (simp add: path_z_river_def length_x_river)

lemma py_int_nonneg: "0 \<le> v \<Longrightarrow> 0 \<le> py_int v"
  by (simp add: py_int_def)

lemma py_index_in_range:
  "0 \<le> i \<Longrightarrow> i < int (length xs) \<Longrightarrow> py_index xs i = Inr (xs ! nat i)"
  by (simp add: py_index_def)

lemma river_index_nonneg:
  assumes "0 < river_length self" and "0 \<le> v"
  shows "\<exists>idx. river_index self v = Inr idx \<and> 0 \<le> idx"
proof -
  have "0 \<le> v * real (resolution self) / river_length self"
    using assms by simp
  then show ?thesis
    using assms(1) by (simp add: river_index_def py_int_nonneg)
qed

lemma move_particle_returns:
  assumes "0 < river_length self" and "0 \<le> p_x p + animation_speed self * (8 / 10)"
  shows "\<exists>q. move_particle self noise p = Inr q"
proof -
  obtain idx where idx: "river_index self (p_x p + animation_speed self * (8 / 10)) = Inr idx"
    "0 \<le> idx"
    using river_index_nonneg [OF assms] by blast
  show ?thesis
    using idx
    by (simp add: move_particle_def Let_def py_index_in_range length_path_y_river
        length_path_z_river)
qed

lemma update_loop_returns:
  assumes "0 < river_length self"
    and "\<forall>p \<in> set ps. 0 \<le> p_x p + animation_speed self * (8 / 10)"
  shows "\<exists>qs marks. update_loop self rnd i ps = Inr (qs, marks)"
  using assms(2)
proof (induction ps arbitrary: i)
  case Nil
  then show ?case by simp
next
  case (Cons p rest)
  obtain q where q: "move_particle self (rnd i) p = Inr q"
    using move_particle_returns [OF assms(1), of p] Cons.prems by auto
  obtain qs marks where "update_loop self rnd (Suc i) rest = Inr (qs, marks)"
    using Cons.IH [of "Suc i"] Cons.prems by auto
  then show ?case
    using q by (simp add: Let_def)
qed

text \<open>
  C9. After a call of \<open>update_particles\<close> that returns, every particle left in
  \<open>waste_particles\<close> has x at most river_length, age at most 100 and a dispersion
  value Bi * k * exp (-k * (x - xi)) above 0.1: the list is exactly the moved particles
  that meet the three conditions, the others being removed by the same call. The call
  returns whenever the river has a positive length and no particle lands at a negative x.
\<close>

theorem C9_update_particles_keeps_survivors:
  "(0 < river_length self
      \<and> (\<forall>p \<in> set (waste_particles self). 0 \<le> p_x p + animation_speed self * (8 / 10))
      \<longrightarrow> (\<exists>self'. update_particles self rnd = Inr self'))
   \<and> (update_particles self rnd = Inr self' \<longrightarrow>
        (\<forall>p \<in> set (waste_particles self').
            p_x p \<le> river_length self' \<and> p_age p \<le> 100
            \<and> 1 / 10 < p_Bi p * k self' * exp (- k self' * (p_x p - p_xi p)))
        \<and> (\<exists>qs marks. update_loop self rnd 0 (waste_particles self) = Inr (qs, marks)
              \<and> list_all2 (moved self) (waste_particles self) qs
              \<and> waste_particles self' = filter (survives self) qs))"
proof -
  have ret: "\<exists>self'. update_particles self rnd = Inr self'"
    if "0 < river_length self"
      and "\<forall>p \<in> set (waste_particles self). 0 \<le> p_x p + animation_speed self * (8 / 10)"
    using update_loop_returns [OF that, of rnd 0] update_particles_eq by blast
  have inv: "(\<forall>p \<in> set (waste_particles self').
            p_x p \<le> river_length self' \<and> p_age p \<le> 100
            \<and> 1 / 10 < p_Bi p * k self' * exp (- k self' * (p_x p - p_xi p)))
        \<and> (\<exists>qs marks. update_loop self rnd 0 (waste_particles self) = Inr (qs, marks)
              \<and> list_all2 (moved self) (waste_particles self) qs
              \<and> waste_particles self' = filter (survives self) qs)"
    if upd: "update_particles self rnd = Inr self'"
  proof -
    obtain qs marks where
      loop: "update_loop self rnd 0 (waste_particles self) = Inr (qs, marks)" and
      mv: "list_all2 (moved self) (waste_particles self) qs" and
      self': "self' = self\<lparr>waste_particles := filter (survives self) qs\<rparr>"
      using update_particles_Inr [OF upd] by blast
    have "\<forall>p \<in> set (waste_particles self').
            p_x p \<le> river_length self' \<and> p_age p \<le> 100
            \<and> 1 / 10 < p_Bi p * k self' * exp (- k self' * (p_x p - p_xi p))"
      by (simp add: self' survives_def dispersion_def)
    then show ?thesis
      using loop mv self' by auto
  qed
  show ?thesis
    using ret inv by blast
qed

theorem C9_update_particles_witness:
  "\<exists>self'. update_particles two_particles (\<lambda>i. 0) = Inr self'
      \<and> map p_id (waste_particles self') = [0]
      \<and> list_all (\<lambda>p. p_x p \<le> 144 \<and> p_age p \<le> 100
                      \<and> 1 / 10 < p_Bi p * (2 / 10) * exp (- (2 / 10) * (p_x p - p_xi p)))
           (waste_particles self')"
proof -
  note C9 = C9_update_particles_keeps_survivors [of two_particles "\<lambda>i. 0"]
  have "\<exists>self'. update_particles two_particles (\<lambda>i. 0) = Inr self'"
    using C9 by (simp add: two_particles_def MantaroRiverAnimation_init_def)
  then obtain self' where ret: "update_particles two_particles (\<lambda>i. 0) = Inr self'"
    by blast
  from C9 [of self'] ret obtain qs marks where
    inv: "\<forall>p \<in> set (waste_particles self').
            p_x p \<le> river_length self' \<and> p_age p \<le> 100
            \<and> 1 / 10 < p_Bi p * k self' * exp (- k self' * (p_x p - p_xi p))" and
    mv: "list_all2 (moved two_particles) (waste_particles two_particles) qs" and
    flt: "waste_particles self' = filter (survives two_particles) qs"
    by blast
  from mv obtain q0 q1 where qs: "qs = [q0, q1]"
    and q0: "p_x q0 = 53" "p_age q0 = 1" "p_Bi q0 = 105 / 10" "p_xi q0 = 53" "p_id q0 = 0"
    and q1: "p_age q1 = 101"
    by (auto simp: two_particles_def MantaroRiverAnimation_init_def list_all2_Cons1 moved_def)
  have ids: "map p_id (waste_particles self') = [0]"
    by (simp add: flt qs survives_def dispersion_def q0 q1 two_particles_def
        MantaroRiverAnimation_init_def)
  have par: "river_length self' = 144" "k self' = 2 / 10"
    using update_particles_Inr [OF ret]
    by (auto simp: two_particles_def MantaroRiverAnimation_init_def)
  show ?thesis
    using ret ids inv by (auto simp: par list_all_iff)
qed

subsection \<open>One frame of the animation\<close>

lemma emit_particle_returns:
  assumes "frame_ready self" and "0 \<le> distance data"
  shows "\<exists>self'. emit_particle self city data sz op i = Inr self' \<and> frame_ready self'
           \<and> cities_data self' = cities_data self"
proof -
  define px where "px = (if distance data - real i * (5 / 10) < 0 then distance data
                         else distance data - real i * (5 / 10))"
  have eq: "emit_particle self city data sz op i =
     (case river_index self px of
        Inl e \<Rightarrow> Inl e
      | Inr idx \<Rightarrow>
          if idx < int (length (path_y_river self)) then
            (case py_index (path_y_river self) idx of
               Inl e \<Rightarrow> Inl e
             | Inr yv \<Rightarrow>
                 (case py_index (path_z_river self) idx of
                    Inl e \<Rightarrow> Inl e
                  | Inr zv \<Rightarrow>
                      Inr (self\<lparr>waste_particles := waste_particles self @
                              [\<lparr>p_id = particle_id self, p_x = px, p_y = yv, p_z = zv + 1,
                                p_age = 0, p_source_city = city, p_color = color data,
                                p_size = sz, p_Bi = waste data,
                                p_xi = distance data, p_opacity = op\<rparr>],
                            particle_id := particle_id self + 1\<rparr>)))
          else Inr self)"
    by (simp only: emit_particle_def Let_def px_def)
  have px: "0 \<le> px"
    using assms(2) by (simp add: px_def)
  have len: "0 < river_length self"
    using assms(1) by (simp add: frame_ready_def)
  obtain idx where idx: "river_index self px = Inr idx" "0 \<le> idx"
    using river_index_nonneg [OF len px] by blast
  show ?thesis
  proof (cases "idx < int (resolution self)")
    case True
    then show ?thesis
      using idx assms(1) px
      by (simp add: eq py_index_in_range length_path_y_river length_path_z_river
          frame_ready_def)
  next
    case False
    then show ?thesis
      using idx assms(1)
      by (simp add: eq length_path_y_river)
  qed
qed

lemma emit_loop_returns:
  assumes "0 \<le> distance data"
  shows "frame_ready self \<Longrightarrow>
         \<exists>self'. emit_loop self city data sz op js = Inr self' \<and> frame_ready self'
           \<and> cities_data self' = cities_data self"
proof (induction js arbitrary: self)
  case Nil
  then show ?case by simp
next
  case (Cons i js)
  obtain s1 where s1: "emit_particle self city data sz op i = Inr s1" "frame_ready s1"
    "cities_data s1 = cities_data self"
    using emit_particle_returns [OF Cons.prems assms] by blast
  obtain s2 where "emit_loop s1 city data sz op js = Inr s2" "frame_ready s2"
    "cities_data s2 = cities_data s1"
    using Cons.IH [OF s1(2)] by blast
  then show ?case
    using s1 by simp
qed

lemma emit_city_returns:
  assumes "frame_ready self" and "0 \<le> distance data"
  shows "\<exists>self'. emit_city self sh so city data = Inr self' \<and> frame_ready self'
           \<and> cities_data self' = cities_data self"
  unfolding emit_city_def by (rule emit_loop_returns [OF assms(2,1)])

lemma add_waste_loop_returns:
  assumes "list_all (\<lambda>(c, d). 0 \<le> distance d) cs"
  shows "frame_ready self \<Longrightarrow>
         \<exists>self'. add_waste_loop self current_x cs = Inr self' \<and> frame_ready self'
           \<and> cities_data self' = cities_data self"
  using assms
proof (induction cs arbitrary: self)
  case Nil
  then show ?case by simp
next
  case (Cons cd cs)
  obtain c d where cd: "cd = (c, d)" by (cases cd)
  have d: "0 \<le> distance d" and rest: "list_all (\<lambda>(c, d). 0 \<le> distance d) cs"
    using Cons.prems(2) by (simp_all add: cd)
  show ?case
  proof (cases "\<bar>current_x - distance d\<bar> < 2")
    case True
    obtain s1 where s1: "emit_city self (5 / 10) 40 c d = Inr s1" "frame_ready s1"
      "cities_data s1 = cities_data self"
      using emit_city_returns [OF Cons.prems(1) d] by blast
    obtain s2 where "add_waste_loop s1 current_x cs = Inr s2" "frame_ready s2"
      "cities_data s2 = cities_data s1"
      using Cons.IH [OF s1(2) rest] by blast
    then show ?thesis
      using True s1 by (simp add: cd)
  next
    case False
    then show ?thesis
      using Cons.IH [OF Cons.prems(1) rest] by (simp add: cd)
  qed
qed

lemma loop_mode_returns:
  assumes "list_all (\<lambda>(c, d). 0 \<le> distance d) cs"
  shows "frame_ready self \<Longrightarrow>
         \<exists>self'. loop_mode self cs = Inr self' \<and> frame_ready self'"
  using assms
proof (induction cs arbitrary: self)
  case Nil
  then show ?case by simp
next
  case (Cons cd cs)
  obtain c d where cd: "cd = (c, d)" by (cases cd)
  have d: "0 \<le> distance d" and rest: "list_all (\<lambda>(c, d). 0 \<le> distance d) cs"
    using Cons.prems(2) by (simp_all add: cd)
  obtain s1 where s1: "emit_city self 18 80 c d = Inr s1" "frame_ready s1"
    using emit_city_returns [OF Cons.prems(1) d] by blast
  show ?case
    using Cons.IH [OF s1(2) rest] s1(1) by (simp add: cd)
qed

lemma frame_ready_limit: "frame_ready self \<Longrightarrow> frame_ready (limit_particles self)"
  by (auto simp: frame_ready_def limit_particles_def list_all_iff dest: in_set_dropD)

lemma update_particles_returns:
  assumes "frame_ready self"
  shows "\<exists>self'. update_particles self rnd = Inr self'"
proof -
  have "0 < river_length self"
    using assms by (simp add: frame_ready_def)
  moreover have "\<forall>p \<in> set (waste_particles self). 0 \<le> p_x p + animation_speed self * (8 / 10)"
    using assms by (auto simp: frame_ready_def list_all_iff)
  ultimately show ?thesis
    using update_loop_returns [of self "waste_particles self" rnd 0] update_particles_eq
    by blast
qed

lemma create_frame_returns:
  assumes "frame_ready self" and "list_all (\<lambda>(c, d). 0 \<le> distance d) (cities_data self)"
  shows "\<exists>self'. create_frame self rnd frame_num = Inr self'"
proof -
  obtain s1 where s1: "add_waste_particles self (real_of_int frame_num * animation_speed self)
      frame_num = Inr s1" "frame_ready s1" "cities_data s1 = cities_data self"
    unfolding add_waste_particles_def
    using add_waste_loop_returns [OF assms(2,1)] by blast
  have "\<exists>s2. loop_mode s1 (cities_data s1) = Inr s2 \<and> frame_ready s2"
    using loop_mode_returns [of "cities_data s1" s1] s1(2,3) assms(2) by simp
  then have "\<exists>s2. (if frame_num mod 10 = 0 then loop_mode s1 (cities_data s1) else Inr s1)
      = Inr s2 \<and> frame_ready s2"
    using s1(2) by simp
  then obtain s2 where s2: "(if frame_num mod 10 = 0 then loop_mode s1 (cities_data s1) else Inr s1)
      = Inr s2" "frame_ready s2"
    by blast
  obtain s3 where "update_particles (limit_particles s2) rnd = Inr s3"
    using update_particles_returns [OF frame_ready_limit [OF s2(2)]] by blast
  then show ?thesis
    using s1(1) s2(1) by (simp add: create_frame_def Let_def)
qed

lemma update_particles_length:
  assumes "update_particles self rnd = Inr self'"
  shows "length (waste_particles self') \<le> length (waste_particles self)"
proof -
  obtain qs marks where mv: "list_all2 (moved self) (waste_particles self) qs"
    and self': "self' = self\<lparr>waste_particles := filter (survives self) qs\<rparr>"
    using update_particles_Inr [OF assms] by blast
  have "length (filter (survives self) qs) \<le> length qs"
    by (rule length_filter_le)
  then show ?thesis
    using list_all2_lengthD [OF mv] self' by simp
qed

lemma limit_particles_length: "length (waste_particles (limit_particles self)) \<le> 200"
  by (simp add: limit_particles_def)

lemma create_frame_emission:
  "create_frame self rnd frame_num =
     (case emission self frame_num of
        Inl e \<Rightarrow> Inl e
      | Inr s2 \<Rightarrow> update_particles (limit_particles s2) rnd)"
  by (simp add: create_frame_def emission_def Let_def split: sum.splits)

lemma extends_refl: "extends s s"
  by (simp add: extends_def)

lemma extends_trans: "extends a b \<Longrightarrow> extends b c \<Longrightarrow> extends a c"
proof -
  assume ab: "extends a b" and bc: "extends b c"
  have le: "length (waste_particles a) \<le> length (waste_particles b)"
    using ab by (simp add: extends_def)
  have "take (length (waste_particles a)) (take (length (waste_particles b)) (waste_particles c))
      = take (length (waste_particles a)) (waste_particles c)"
    using le by (simp add: min_def)
  moreover have "take (length (waste_particles b)) (waste_particles c) = waste_particles b"
    using bc by (simp add: extends_def)
  moreover have "take (length (waste_particles a)) (waste_particles b) = waste_particles a"
    using ab by (simp add: extends_def)
  ultimately have "take (length (waste_particles a)) (waste_particles c) = waste_particles a"
    by simp
  then show ?thesis
    using ab bc by (simp add: extends_def)
qed

lemma emit_particle_extends:
  "emit_particle self city data sz op i = Inr self' \<Longrightarrow> extends self self'"
  by (auto simp: emit_particle_def Let_def extends_def split: sum.splits if_splits)

lemma emit_loop_extends:
  "emit_loop self city data sz op js = Inr self' \<Longrightarrow> extends self self'"
proof (induction js arbitrary: self)
  case Nil
  then show ?case by (simp add: extends_refl)
next
  case (Cons i js)
  from Cons.prems obtain s1 where s1: "emit_particle self city data sz op i = Inr s1"
    and rest: "emit_loop s1 city data sz op js = Inr self'"
    by (auto split: sum.splits)
  show ?case
    using extends_trans [OF emit_particle_extends [OF s1] Cons.IH [OF rest]] .
qed

lemma emit_city_extends:
  "emit_city self sh so city data = Inr self' \<Longrightarrow> extends self self'"
  unfolding emit_city_def by (rule emit_loop_extends)

lemma add_waste_loop_extends:
  "add_waste_loop self current_x cs = Inr self' \<Longrightarrow> extends self self'"
proof (induction cs arbitrary: self)
  case Nil
  then show ?case by (simp add: extends_refl)
next
  case (Cons cd cs)
  obtain c d where cd: "cd = (c, d)" by (cases cd)
  show ?case
  proof (cases "\<bar>current_x - distance d\<bar> < 2")
    case True
    with Cons.prems obtain s1 where s1: "emit_city self (5 / 10) 40 c d = Inr s1"
      and rest: "add_waste_loop s1 current_x cs = Inr self'"
      by (auto simp: cd split: sum.splits)
    show ?thesis
      using extends_trans [OF emit_city_extends [OF s1] Cons.IH [OF rest]] .
  next
    case False
    then show ?thesis
      using Cons.prems Cons.IH by (simp add: cd)
  qed
qed

lemma loop_mode_extends: "loop_mode self cs = Inr self' \<Longrightarrow> extends self self'"
proof (induction cs arbitrary: self)
  case Nil
  then show ?case by (simp add: extends_refl)
next
  case (Cons cd cs)
  obtain c d where cd: "cd = (c, d)" by (cases cd)
  from Cons.prems obtain s1 where s1: "emit_city self 18 80 c d = Inr s1"
    and rest: "loop_mode s1 cs = Inr self'"
    by (auto simp: cd split: sum.splits)
  show ?case
    using extends_trans [OF emit_city_extends [OF s1] Cons.IH [OF rest]] .
qed

lemma emission_extends: "emission self frame_num = Inr s2 \<Longrightarrow> extends self s2"
proof -
  assume e: "emission self frame_num = Inr s2"
  then obtain s1 where s1: "add_waste_loop self (real_of_int frame_num * animation_speed self)
      (cities_data self) = Inr s1"
    and s2: "(if frame_num mod 10 = 0 then loop_mode s1 (cities_data s1) else Inr s1) = Inr s2"
    by (auto simp: emission_def add_waste_particles_def split: sum.splits)
  have "extends s1 s2"
    using s2 loop_mode_extends extends_refl by (auto split: if_splits)
  then show ?thesis
    using extends_trans [OF add_waste_loop_extends [OF s1]] by blast
qed

lemma waste_particles_limit:
  "waste_particles (limit_particles s)
     = drop (length (waste_particles s) - 200) (waste_particles s)"
  by (simp add: limit_particles_def)

lemma moved_same_speed:
  "animation_speed s = animation_speed s' \<Longrightarrow> moved s = moved s'"
  by (simp add: moved_def fun_eq_iff)

lemma survives_same_river:
  "river_length s = river_length s' \<Longrightarrow> k s = k s' \<Longrightarrow> survives s = survives s'"
  by (simp add: survives_def dispersion_def fun_eq_iff)

lemma limit_particles_fields:
  "animation_speed (limit_particles s) = animation_speed s"
  "river_length (limit_particles s) = river_length s"
  "k (limit_particles s) = k s"
  by (simp_all add: limit_particles_def)

text \<open>
  C10. After a call of \<open>create_frame\<close> that returns, \<open>waste_particles\<close> holds at
  most 200 particles. The emission keeps the particles of the object and appends the
  new ones; the list is then cut to its last 200 entries; \<open>update_particles\<close> moves
  these and removes those that do not survive, adding none: the final list is the
  survivors among the moved last 200 entries.
\<close>

theorem C10_create_frame_at_most_200:
  "create_frame self rnd frame_num = Inr self' \<longrightarrow>
     (\<exists>s2 qs. emission self frame_num = Inr s2 \<and> extends self s2
        \<and> list_all2 (moved self)
             (drop (length (waste_particles s2) - 200) (waste_particles s2)) qs
        \<and> waste_particles self' = filter (survives self) qs)
     \<and> length (waste_particles self') \<le> 200"
proof
  assume cf: "create_frame self rnd frame_num = Inr self'"
  then obtain s2 where em: "emission self frame_num = Inr s2"
    and up: "update_particles (limit_particles s2) rnd = Inr self'"
    by (auto simp: create_frame_emission split: sum.splits)
  have ext: "extends self s2"
    using emission_extends [OF em] .
  obtain qs marks where
    mv: "list_all2 (moved (limit_particles s2)) (waste_particles (limit_particles s2)) qs" and
    self': "self' = (limit_particles s2)\<lparr>waste_particles :=
                       filter (survives (limit_particles s2)) qs\<rparr>"
    using update_particles_Inr [OF up] by blast
  have m: "moved (limit_particles s2) = moved self"
    using ext by (intro moved_same_speed) (simp add: limit_particles_fields extends_def)
  have s: "survives (limit_particles s2) = survives self"
    using ext by (intro survives_same_river) (simp_all add: limit_particles_fields extends_def)
  have mv': "list_all2 (moved self)
      (drop (length (waste_particles s2) - 200) (waste_particles s2)) qs"
    using mv by (simp add: m waste_particles_limit)
  have res: "waste_particles self' = filter (survives self) qs"
    by (simp add: self' s)
  have "length qs \<le> 200"
    using list_all2_lengthD [OF mv'] by simp
  then have "length (filter (survives self) qs) \<le> 200"
    by (rule le_trans [OF length_filter_le])
  then have "length (waste_particles self') \<le> 200"
    by (simp only: res)
  then show "(\<exists>s2 qs. emission self frame_num = Inr s2 \<and> extends self s2
        \<and> list_all2 (moved self)
             (drop (length (waste_particles s2) - 200) (waste_particles s2)) qs
        \<and> waste_particles self' = filter (survives self) qs)
     \<and> length (waste_particles self') \<le> 200"
    using em ext mv' res by blast
qed

lemma emission_quiet_frame:
  "emission (MantaroRiverAnimation_init\<lparr>waste_particles := ps\<rparr>) 1
     = Inr (MantaroRiverAnimation_init\<lparr>waste_particles := ps\<rparr>)"
  by (simp add: emission_def add_waste_particles_def MantaroRiverAnimation_init_def)

lemma moved_ids: "list_all2 (moved s) ps qs \<Longrightarrow> map p_id qs = map p_id ps"
  by (induction ps qs rule: list_all2_induct) (auto simp: moved_def)

lemma moved_all_survive:
  assumes "list_all2 (moved s) ps qs"
    and "\<And>p q. p \<in> set ps \<Longrightarrow> moved s p q \<Longrightarrow> survives s q"
  shows "filter (survives s) qs = qs"
  using assms by (induction ps qs rule: list_all2_induct) auto

theorem C10_create_frame_witness:
  "\<exists>self'. create_frame many_particles (\<lambda>i. 0) 1 = Inr self'
      \<and> map p_id (waste_particles self') = [1..<201]
      \<and> length (waste_particles self') \<le> 200"
proof -
  let ?S = many_particles
  let ?jp = "\<lambda>i. \<lparr>p_id = i, p_x = 514 / 10, p_y = 0, p_z = 3400, p_age = 0,
                     p_source_city = ''Jauja'', p_color = ''#FF8800'', p_size = 40,
                     p_Bi = 105 / 10, p_xi = 53, p_opacity = 1\<rparr>"
  have ps: "waste_particles ?S = map ?jp [0..<201]"
    by (simp add: many_particles_def)
  have par: "river_length ?S = 144" "k ?S = 2 / 10" "animation_speed ?S = 2"
    by (simp_all add: many_particles_def MantaroRiverAnimation_init_def)
  have "frame_ready ?S"
    by (simp add: frame_ready_def par ps list_all_iff)
  moreover have "list_all (\<lambda>(c, d). 0 \<le> distance d) (cities_data ?S)"
    by (simp add: many_particles_def MantaroRiverAnimation_init_def)
  ultimately obtain self' where cf: "create_frame ?S (\<lambda>i. 0) 1 = Inr self'"
    using create_frame_returns by blast
  have em: "emission ?S 1 = Inr ?S"
    unfolding many_particles_def by (rule emission_quiet_frame)
  from C10_create_frame_at_most_200 [of ?S "\<lambda>i. 0" 1 self'] cf em
  obtain qs where
    mv: "list_all2 (moved ?S) (drop (length (waste_particles ?S) - 200) (waste_particles ?S)) qs"
    and res: "waste_particles self' = filter (survives ?S) qs"
    and len: "length (waste_particles self') \<le> 200"
    by auto
  have cut: "drop (length (waste_particles ?S) - 200) (waste_particles ?S) = map ?jp [1..<201]"
    by (simp add: ps drop_map)
  have "survives ?S q" if "p \<in> set (map ?jp [1..<201])" and "moved ?S p q" for p q
    using that by (auto simp: moved_def survives_def dispersion_def par)
  then have "filter (survives ?S) qs = qs"
    using moved_all_survive [OF mv [unfolded cut]] by blast
  then have "map p_id (waste_particles self') = [1..<201]"
    using moved_ids [OF mv [unfolded cut]] by (simp add: res comp_def)
  then show ?thesis
    using cf len by blast
qed

end
